theory Spec2Isabelle
  imports Complex_Main
begin

section \<open>Gesture-controlled audio player: the controller and its gesture mapping\<close>

text \<open>
  The development follows \<^verbatim>\<open>utils.py\<close> and \<^verbatim>\<open>gesture_controller.py\<close>.
  Python floats are modelled as \<^typ>\<open>real\<close>: rounding error, infinities and NaN are outside
  the model. The objects the controller only talks to (the hand detector, the clock, the
  thread library, pyrubberband, soundfile and the pygame mixer) appear as inputs or as the
  part of their state the controller can change.
\<close>

subsection \<open>Landmarks and the distance metric (\<^verbatim>\<open>utils.py\<close>)\<close>

text \<open>A landmark carries the attributes \<^verbatim>\<open>.x\<close> and \<^verbatim>\<open>.y\<close> read by the code.\<close>

record landmark =
  lm_x :: real
  lm_y :: real

definition calculate_distance :: "landmark \<Rightarrow> landmark \<Rightarrow> real" where
  "calculate_distance landmark1 landmark2 =
     sqrt ((lm_x landmark1 - lm_x landmark2)\<^sup>2 + (lm_y landmark1 - lm_y landmark2)\<^sup>2)"

text \<open>
  The members of \<^verbatim>\<open>mp_hands.HandLandmark\<close> that the controller indexes with; a detected
  hand is the lookup \<^verbatim>\<open>hand.landmark[...]\<close>.
\<close>

datatype HandLandmark = WRIST | THUMB_TIP | INDEX_FINGER_TIP

type_synonym hand = "HandLandmark \<Rightarrow> landmark"

subsection \<open>Numeric helpers\<close>

text \<open>\<^verbatim>\<open>np.clip(a, a_min, a_max)\<close> is \<^verbatim>\<open>minimum(a_max, maximum(a, a_min))\<close>.\<close>

definition clip :: "real \<Rightarrow> real \<Rightarrow> real \<Rightarrow> real" where
  "clip a a_min a_max = min a_max (max a a_min)"

text \<open>Python 3 \<^verbatim>\<open>round\<close> on a float rounds half to even.\<close>

definition py_round :: "real \<Rightarrow> int" where
  "py_round v =
     (let f = \<lfloor>v\<rfloor>; d = v - of_int f
      in if d < 1/2 then f else if 1/2 < d then f + 1 else if even f then f else f + 1)"

text \<open>The two linear maps of \<^verbatim>\<open>handle_gestures\<close> (lines 131, 143 and 156).\<close>

definition speed_of_pinch :: "real \<Rightarrow> real" where
  "speed_of_pinch pinch_distance = clip (1.0 + (pinch_distance - 0.1) * 2.0) 0.5 2.0"

definition pitch_of_pinch :: "real \<Rightarrow> real" where
  "pitch_of_pinch pinch_distance = clip ((pinch_distance - 0.1) * 48 - 12) (-12) 12"

subsection \<open>The controller, the playback sink and the environment\<close>

text \<open>
  The two files the mixer is given by name: the audio file of the command line and the one
  temporary file (line 40) that every render pass writes anew (line 200) and loads again
  (line 203). The mixer plays from the file it was given, so what it plays is the present
  content of that file.
\<close>

datatype path = AudioFile | TempOutput

text \<open>
  The content of a file: the source audio, or the source stretched by a speed and shifted
  by whole semitones.
\<close>

datatype audio = SourceAudio | Rendered real int

datatype mixer_call = SetVolume real | Load path | Play bool | Pause | Unpause | Stop | Quit

datatype message =
    PitchUpdated real
  | AudioProcessed real real
  | ErrorProcessingAudio
  | ErrorInAudioProcessing
  | CurrentSpeedPitch real real
  | ResumingPlayback | PausingPlayback | StartingPlayback | ResettingControls

text \<open>
  The fields of \<^verbatim>\<open>GestureController\<close> that the methods read or write, then the state of
  \<^verbatim>\<open>pygame.mixer.music\<close> (\<open>mixer_loaded\<close> is the file it was given last), the content of
  the file named \<^verbatim>\<open>self.temp_output\<close> (\<open>None\<close> while it holds no complete audio), the lines
  printed, and two counters: how often \<^verbatim>\<open>adjust_audio\<close> was entered and how many render
  threads were started. The
  attributes \<^verbatim>\<open>_last_speed\<close>, \<^verbatim>\<open>_last_pitch\<close> and \<^verbatim>\<open>hand_count\<close> do not exist until a
  method assigns them.
\<close>

record controller =
  playing :: bool
  current_speed :: real
  current_pitch :: real
  is_playing :: bool
  last_update_time :: real
  update_interval :: real
  last_speed :: real
  last_pitch :: real
  speed_threshold :: real
  pitch_threshold :: real
  paused :: bool
  hand_count :: "nat option"
  priv_last_speed :: "real option"
  priv_last_pitch :: "real option"
  mixer_volume :: real
  mixer_loaded :: path
  mixer_busy :: bool
  mixer_paused :: bool
  mixer_calls :: "mixer_call list"
  temp_output :: "audio option"
  printed :: "message list"
  adjust_calls :: nat
  threads_started :: nat

text \<open>
  The environment: the value \<^verbatim>\<open>time.time()\<close> returns at the n-th entry of
  \<^verbatim>\<open>adjust_audio\<close>, and whether \<^verbatim>\<open>Thread.start\<close> succeeds there.
\<close>

record world =
  time_time :: "nat \<Rightarrow> real"
  thread_start_ok :: "nat \<Rightarrow> bool"

text \<open>The effect of one call on \<^verbatim>\<open>pygame.mixer.music\<close>; every call is recorded.\<close>

fun mixer_effect :: "mixer_call \<Rightarrow> controller \<Rightarrow> controller" where
  "mixer_effect (SetVolume v) s = s\<lparr>mixer_volume := v\<rparr>"
| "mixer_effect (Load p) s = s\<lparr>mixer_loaded := p, mixer_busy := False, mixer_paused := False\<rparr>"
| "mixer_effect (Play loop) s = s\<lparr>mixer_busy := True, mixer_paused := False\<rparr>"
| "mixer_effect Pause s = s\<lparr>mixer_paused := True\<rparr>"
| "mixer_effect Unpause s = s\<lparr>mixer_paused := False\<rparr>"
| "mixer_effect Stop s = s\<lparr>mixer_busy := False, mixer_paused := False\<rparr>"
| "mixer_effect Quit s = s\<lparr>mixer_busy := False, mixer_paused := False\<rparr>"

definition mixer :: "mixer_call \<Rightarrow> controller \<Rightarrow> controller" where
  "mixer c s = (mixer_effect c s)\<lparr>mixer_calls := mixer_calls s @ [c]\<rparr>"

definition print :: "message \<Rightarrow> controller \<Rightarrow> controller" where
  "print m s = s\<lparr>printed := printed s @ [m]\<rparr>"

text \<open>The controller as \<^verbatim>\<open>__init__\<close> leaves it: the file is loaded and playing in a loop.\<close>

definition init :: controller where
  "init = \<lparr>playing = False, current_speed = 1.0, current_pitch = 0.0, is_playing = True,
     last_update_time = 0, update_interval = 0.2, last_speed = 1.0, last_pitch = 0.0,
     speed_threshold = 0.05, pitch_threshold = 0.5, paused = False, hand_count = None,
     priv_last_speed = None, priv_last_pitch = None,
     mixer_volume = 1.0, mixer_loaded = AudioFile, mixer_busy = True, mixer_paused = False,
     mixer_calls = [Load AudioFile, Play True], temp_output = None, printed = [],
     adjust_calls = 0, threads_started = 0\<rparr>"

subsection \<open>\<^verbatim>\<open>adjust_audio\<close>: the time gate\<close>

definition adjust_audio :: "world \<Rightarrow> controller \<Rightarrow> controller" where
  "adjust_audio w s =
     (let n = adjust_calls s;
          current_time = time_time w n;
          s = s\<lparr>adjust_calls := n + 1\<rparr>
      in if current_time - last_update_time s < update_interval s then s
         else
           (let s = s\<lparr>last_update_time := current_time\<rparr>
            in if thread_start_ok w n then s\<lparr>threads_started := threads_started s + 1\<rparr>
               else print ErrorProcessingAudio s))"

subsection \<open>\<^verbatim>\<open>handle_gestures\<close> and \<^verbatim>\<open>process_frame\<close>\<close>

text \<open>Lines 125 to 135: speed from the pinch of the first hand.\<close>

definition speed_control :: "world \<Rightarrow> hand \<Rightarrow> controller \<Rightarrow> controller" where
  "speed_control w hand1_landmarks s =
     (let pinch_distance1 = calculate_distance (hand1_landmarks THUMB_TIP)
                              (hand1_landmarks INDEX_FINGER_TIP);
          new_speed = speed_of_pinch pinch_distance1
      in if \<bar>new_speed - last_speed s\<bar> > speed_threshold s
         then adjust_audio w (s\<lparr>current_speed := new_speed, last_speed := new_speed\<rparr>)
         else s)"

text \<open>Lines 137 to 146: pitch from the pinch of the second hand.\<close>

definition frequency_control :: "world \<Rightarrow> hand \<Rightarrow> controller \<Rightarrow> controller" where
  "frequency_control w hand2_landmarks s =
     (let pinch_distance2 = calculate_distance (hand2_landmarks THUMB_TIP)
                              (hand2_landmarks INDEX_FINGER_TIP);
          frequency_shift = pitch_of_pinch pinch_distance2
      in if \<bar>frequency_shift - current_pitch s\<bar> > pitch_threshold s
         then adjust_audio w (s\<lparr>current_pitch := frequency_shift\<rparr>)
         else s)"

text \<open>Lines 148 to 163: pitch from the pinch of the hand the handler was called for.\<close>

definition pitch_control :: "world \<Rightarrow> hand \<Rightarrow> controller \<Rightarrow> controller" where
  "pitch_control w hand_landmarks s =
     (let pinch_distance = calculate_distance (hand_landmarks THUMB_TIP)
                             (hand_landmarks INDEX_FINGER_TIP);
          new_pitch = pitch_of_pinch pinch_distance
      in if \<bar>new_pitch - last_pitch s\<bar> > pitch_threshold s
         then (let s = adjust_audio w (s\<lparr>current_pitch := new_pitch, last_pitch := new_pitch\<rparr>)
               in print (PitchUpdated (current_pitch s)) s)
         else s)"

text \<open>Lines 110 to 146: the branch taken when the frame holds two hands.\<close>

definition two_hand_controls :: "world \<Rightarrow> hand \<Rightarrow> hand \<Rightarrow> controller \<Rightarrow> controller" where
  "two_hand_controls w hand1_landmarks hand2_landmarks s =
     (let hand_distance = calculate_distance (hand1_landmarks WRIST) (hand2_landmarks WRIST);
          volume = clip hand_distance 0.0 1.0;
          s = mixer (SetVolume volume) s;
          s = speed_control w hand1_landmarks s
      in frequency_control w hand2_landmarks s)"

definition handle_gestures :: "world \<Rightarrow> hand \<Rightarrow> hand list \<Rightarrow> controller \<Rightarrow> controller" where
  "handle_gestures w hand_landmarks all_hand_landmarks s =
     (let s = (if length all_hand_landmarks = 2
               then two_hand_controls w (all_hand_landmarks ! 0) (all_hand_landmarks ! 1) s
               else s)
      in pitch_control w hand_landmarks s)"

text \<open>
  Lines 97 to 102 of \<^verbatim>\<open>process_frame\<close>; the argument is \<^verbatim>\<open>results.multi_hand_landmarks\<close>,
  with the empty list for \<^verbatim>\<open>None\<close>. The drawing on the frame changes no state.
\<close>

definition process_frame :: "world \<Rightarrow> hand list \<Rightarrow> controller \<Rightarrow> controller" where
  "process_frame w multi_hand_landmarks s =
     (if multi_hand_landmarks \<noteq> []
      then foldl (\<lambda>s hand_landmarks. handle_gestures w hand_landmarks multi_hand_landmarks s)
             (s\<lparr>hand_count := Some (length multi_hand_landmarks)\<rparr>) multi_hand_landmarks
      else s)"

subsection \<open>\<^verbatim>\<open>_process_audio\<close>: the render pass\<close>

text \<open>
  The calls of the render pass that can raise, in the order the pass makes them. The
  first one that raises, if any, is an input of the model.
\<close>

datatype render_fault = TimeStretchRaises | PitchShiftRaises | WriteRaises | LoadRaises | PlayRaises

text \<open>
  Lines 186 to 207, the body of the \<^verbatim>\<open>try\<close>: the exception that leaves it, if any, and the
  state at that point. The pass runs in its own thread: it reads \<^verbatim>\<open>current_speed\<close> when it
  calls \<^verbatim>\<open>time_stretch\<close> and \<^verbatim>\<open>current_pitch\<close> only when that call has returned (lines 188
  to 197). \<open>meanwhile\<close> is what the frame loop does to the controller while \<^verbatim>\<open>time_stretch\<close>
  runs. The steps after the pitch is read are taken together. A write that raises leaves
  no complete audio in the file; a load that raises leaves the mixer with the file it had.
\<close>

definition render_body ::
  "render_fault option \<Rightarrow> (controller \<Rightarrow> controller) \<Rightarrow> controller \<Rightarrow> render_fault option \<times> controller" where
  "render_body fault meanwhile s =
     (if \<not> paused s then
        (let speed = current_speed s;
             s = meanwhile s
         in if fault = Some TimeStretchRaises then (fault, s)
            else if fault = Some PitchShiftRaises then (fault, s)
            else
              (let modified_audio = Rendered speed (py_round (current_pitch s)) in
               if fault = Some WriteRaises then (fault, s\<lparr>temp_output := None\<rparr>)
               else
                 (let s = s\<lparr>temp_output := Some modified_audio\<rparr> in
                  if fault = Some LoadRaises then (fault, s)
                  else
                    (let s = mixer (Load TempOutput) s in
                     if fault = Some PlayRaises then (fault, s)
                     else
                       (let s = mixer (Play False) s;
                            s = s\<lparr>is_playing := True\<rparr>
                        in (None, print (AudioProcessed (current_speed s) (current_pitch s)) s))))))
      else (None, s))"

text \<open>
  \<^verbatim>\<open>_process_audio\<close>: the handler of \<^verbatim>\<open>except Exception\<close> prints two lines. The first
  component of the result is the exception that leaves the method.
\<close>

definition process_audio_during ::
  "render_fault option \<Rightarrow> (controller \<Rightarrow> controller) \<Rightarrow> controller \<Rightarrow> render_fault option \<times> controller" where
  "process_audio_during fault meanwhile s =
     (case render_body fault meanwhile s of
        (None, s') \<Rightarrow> (None, s')
      | (Some e, s') \<Rightarrow>
          (None, print (CurrentSpeedPitch (current_speed s') (current_pitch s'))
                   (print ErrorInAudioProcessing s')))"

text \<open>The pass when the frame loop does nothing to the controller while it runs.\<close>

definition process_audio :: "render_fault option \<Rightarrow> controller \<Rightarrow> render_fault option \<times> controller" where
  "process_audio fault s = process_audio_during fault (\<lambda>s. s) s"

subsection \<open>Keyboard operations and shutdown\<close>

definition stop_audio :: "controller \<Rightarrow> controller" where
  "stop_audio s = (if is_playing s then (mixer Stop s)\<lparr>is_playing := False\<rparr> else s)"

definition toggle_play_pause :: "controller \<Rightarrow> controller" where
  "toggle_play_pause s =
     (if is_playing s then
        (let s = (if paused s then print ResumingPlayback (mixer Unpause s)
                  else print PausingPlayback (mixer Pause s))
         in s\<lparr>paused := \<not> paused s\<rparr>)
      else print StartingPlayback ((mixer (Play True) s)\<lparr>is_playing := True\<rparr>))"

definition reset_controls :: "world \<Rightarrow> controller \<Rightarrow> controller" where
  "reset_controls w s =
     (let s = print ResettingControls s;
          s = s\<lparr>current_speed := 1.0, current_pitch := 0.0,
                priv_last_speed := Some 1.0, priv_last_pitch := Some 0.0\<rparr>;
          s = adjust_audio w s
      in if \<not> is_playing s then (mixer (Play True) s)\<lparr>is_playing := True, paused := False\<rparr>
         else s)"

definition cleanup :: "controller \<Rightarrow> controller" where
  "cleanup s = (let s = stop_audio s; s = mixer Quit s in s\<lparr>temp_output := None\<rparr>)"

subsection \<open>The loop over the frames\<close>

text \<open>
  Lines 53 to 59 of \<^verbatim>\<open>main.py\<close>, for the frames read while no key is pressed: each frame
  goes through \<^verbatim>\<open>process_frame\<close>.
\<close>

definition process_frames :: "world \<Rightarrow> hand list list \<Rightarrow> controller \<Rightarrow> controller" where
  "process_frames w frames s =
     foldl (\<lambda>s multi_hand_landmarks. process_frame w multi_hand_landmarks s) s frames"

subsection \<open>Notions used in the properties\<close>

text \<open>The audio the mixer plays: the present content of the file it was given.\<close>

definition mixer_audio :: "controller \<Rightarrow> audio option" where
  "mixer_audio s =
     (case mixer_loaded s of AudioFile \<Rightarrow> Some SourceAudio | TempOutput \<Rightarrow> temp_output s)"

text \<open>
  An operation respects the time gate when it keeps the update interval, only adds entries
  of \<^verbatim>\<open>adjust_audio\<close>, starts no thread while every entry reads a time less than the
  interval after the last start, and, entered with the gate open, starts exactly one thread,
  at its first entry, if the later entries read a time less than the interval after it.
\<close>

definition respects_gate :: "world \<Rightarrow> (controller \<Rightarrow> controller) \<Rightarrow> bool" where
  "respects_gate w F \<longleftrightarrow>
     (\<forall>s. adjust_calls s \<le> adjust_calls (F s) \<and> update_interval (F s) = update_interval s
        \<and> ((\<forall>j. adjust_calls s \<le> j \<and> j < adjust_calls (F s)
                \<longrightarrow> time_time w j - last_update_time s < update_interval s)
            \<longrightarrow> threads_started (F s) = threads_started s
              \<and> last_update_time (F s) = last_update_time s)
        \<and> (update_interval s \<le> time_time w (adjust_calls s) - last_update_time s
            \<and> thread_start_ok w (adjust_calls s)
            \<and> (\<forall>j. adjust_calls s < j \<and> j < adjust_calls (F s)
                  \<longrightarrow> time_time w j - time_time w (adjust_calls s) < update_interval s)
            \<longrightarrow> threads_started (F s)
                  = threads_started s + (if adjust_calls (F s) = adjust_calls s then 0 else 1)
              \<and> last_update_time (F s)
                  = (if adjust_calls (F s) = adjust_calls s then last_update_time s
                     else time_time w (adjust_calls s))))"

text \<open>The ranges of the playback parameters.\<close>

definition parameters_in_range :: "controller \<Rightarrow> bool" where
  "parameters_in_range s \<longleftrightarrow>
     0.5 \<le> current_speed s \<and> current_speed s \<le> 2.0 \<and> -12 \<le> current_pitch s \<and> current_pitch s \<le> 12"

text \<open>The pinch of a hand: thumb tip to index finger tip.\<close>

definition pinch :: "hand \<Rightarrow> real" where
  "pinch h = calculate_distance (h THUMB_TIP) (h INDEX_FINGER_TIP)"

text \<open>How often the volume of the mixer was set.\<close>

fun is_SetVolume :: "mixer_call \<Rightarrow> bool" where
  "is_SetVolume (SetVolume v) = True"
| "is_SetVolume c = False"

definition volume_calls :: "controller \<Rightarrow> nat" where
  "volume_calls s = length (filter is_SetVolume (mixer_calls s))"

subsection \<open>Sample inputs\<close>

text \<open>
  A clock that reads \<open>t0\<close> at the first entry of \<^verbatim>\<open>adjust_audio\<close> and advances by \<open>dt\<close>
  from one entry to the next, with every thread starting.
\<close>

definition steady_clock :: "real \<Rightarrow> real \<Rightarrow> world" where
  "steady_clock t0 dt = \<lparr>time_time = (\<lambda>n. t0 + dt * real n), thread_start_ok = (\<lambda>n. True)\<rparr>"

text \<open>A hand with its wrist at \<open>(wx, 0)\<close>, its thumb tip at the origin and its index tip at \<open>(d, 0)\<close>.\<close>

definition hand_with :: "real \<Rightarrow> real \<Rightarrow> hand" where
  "hand_with wx d =
     (\<lambda>l. case l of WRIST \<Rightarrow> \<lparr>lm_x = wx, lm_y = 0\<rparr>
               | THUMB_TIP \<Rightarrow> \<lparr>lm_x = 0, lm_y = 0\<rparr>
               | INDEX_FINGER_TIP \<Rightarrow> \<lparr>lm_x = d, lm_y = 0\<rparr>)"

section \<open>Properties\<close>

subsection \<open>Auxiliary facts\<close>

lemma clip_bounds: "lo \<le> hi \<Longrightarrow> lo \<le> clip a lo hi \<and> clip a lo hi \<le> hi"
  by (simp add: clip_def)

lemma clip_mono: "a \<le> b \<Longrightarrow> clip a lo hi \<le> clip b lo hi"
  by (simp add: clip_def min_def max_def)

lemma speed_of_pinch_bounds: "0.5 \<le> speed_of_pinch d \<and> speed_of_pinch d \<le> 2"
  using clip_bounds [of "0.5" "2.0"] by (simp add: speed_of_pinch_def)

lemma pitch_of_pinch_bounds: "-12 \<le> pitch_of_pinch d \<and> pitch_of_pinch d \<le> 12"
  using clip_bounds [of "-12" "12"] by (simp add: pitch_of_pinch_def)

lemma adjust_audio_eq:
  "adjust_audio w s =
     (if time_time w (adjust_calls s) - last_update_time s < update_interval s
      then s\<lparr>adjust_calls := adjust_calls s + 1\<rparr>
      else if thread_start_ok w (adjust_calls s)
      then s\<lparr>adjust_calls := adjust_calls s + 1, last_update_time := time_time w (adjust_calls s),
             threads_started := threads_started s + 1\<rparr>
      else s\<lparr>adjust_calls := adjust_calls s + 1, last_update_time := time_time w (adjust_calls s),
             printed := printed s @ [ErrorProcessingAudio]\<rparr>)"
  by (simp add: adjust_audio_def Let_def print_def)

lemma adjust_audio_fields [simp]:
  "current_speed (adjust_audio w s) = current_speed s"
  "current_pitch (adjust_audio w s) = current_pitch s"
  "last_speed (adjust_audio w s) = last_speed s"
  "last_pitch (adjust_audio w s) = last_pitch s"
  "speed_threshold (adjust_audio w s) = speed_threshold s"
  "pitch_threshold (adjust_audio w s) = pitch_threshold s"
  "update_interval (adjust_audio w s) = update_interval s"
  "is_playing (adjust_audio w s) = is_playing s"
  "paused (adjust_audio w s) = paused s"
  "mixer_calls (adjust_audio w s) = mixer_calls s"
  "mixer_volume (adjust_audio w s) = mixer_volume s"
  "mixer_loaded (adjust_audio w s) = mixer_loaded s"
  "mixer_busy (adjust_audio w s) = mixer_busy s"
  "mixer_paused (adjust_audio w s) = mixer_paused s"
  "adjust_calls (adjust_audio w s) = adjust_calls s + 1"
  "priv_last_speed (adjust_audio w s) = priv_last_speed s"
  "priv_last_pitch (adjust_audio w s) = priv_last_pitch s"
  "temp_output (adjust_audio w s) = temp_output s"
  "hand_count (adjust_audio w s) = hand_count s"
  by (simp_all add: adjust_audio_eq)

lemma speed_control_fields [simp]:
  "current_pitch (speed_control w h s) = current_pitch s"
  "last_pitch (speed_control w h s) = last_pitch s"
  "speed_threshold (speed_control w h s) = speed_threshold s"
  "pitch_threshold (speed_control w h s) = pitch_threshold s"
  "update_interval (speed_control w h s) = update_interval s"
  "mixer_calls (speed_control w h s) = mixer_calls s"
  "mixer_volume (speed_control w h s) = mixer_volume s"
  by (simp_all add: speed_control_def Let_def)

lemma frequency_control_fields [simp]:
  "current_speed (frequency_control w h s) = current_speed s"
  "last_speed (frequency_control w h s) = last_speed s"
  "last_pitch (frequency_control w h s) = last_pitch s"
  "speed_threshold (frequency_control w h s) = speed_threshold s"
  "pitch_threshold (frequency_control w h s) = pitch_threshold s"
  "update_interval (frequency_control w h s) = update_interval s"
  "mixer_calls (frequency_control w h s) = mixer_calls s"
  "mixer_volume (frequency_control w h s) = mixer_volume s"
  by (simp_all add: frequency_control_def Let_def)

lemma pitch_control_fields [simp]:
  "current_speed (pitch_control w h s) = current_speed s"
  "last_speed (pitch_control w h s) = last_speed s"
  "speed_threshold (pitch_control w h s) = speed_threshold s"
  "pitch_threshold (pitch_control w h s) = pitch_threshold s"
  "update_interval (pitch_control w h s) = update_interval s"
  "mixer_calls (pitch_control w h s) = mixer_calls s"
  "mixer_volume (pitch_control w h s) = mixer_volume s"
  by (simp_all add: pitch_control_def Let_def print_def)

lemma speed_control_range: "parameters_in_range s \<Longrightarrow> parameters_in_range (speed_control w h s)"
  using speed_of_pinch_bounds by (simp add: parameters_in_range_def speed_control_def Let_def)

lemma frequency_control_range: "parameters_in_range s \<Longrightarrow> parameters_in_range (frequency_control w h s)"
  using pitch_of_pinch_bounds by (simp add: parameters_in_range_def frequency_control_def Let_def)

lemma pitch_control_range: "parameters_in_range s \<Longrightarrow> parameters_in_range (pitch_control w h s)"
  using pitch_of_pinch_bounds by (simp add: parameters_in_range_def pitch_control_def Let_def print_def)

lemma adjust_audio_range: "parameters_in_range s \<Longrightarrow> parameters_in_range (adjust_audio w s)"
  by (simp add: parameters_in_range_def)

lemma mixer_range: "parameters_in_range (mixer c s) = parameters_in_range s"
  by (cases c) (simp_all add: parameters_in_range_def mixer_def)

lemma two_hand_controls_range:
  "parameters_in_range s \<Longrightarrow> parameters_in_range (two_hand_controls w h1 h2 s)"
  by (simp add: two_hand_controls_def Let_def frequency_control_range speed_control_range mixer_range)

lemma handle_gestures_range:
  "parameters_in_range s \<Longrightarrow> parameters_in_range (handle_gestures w h hs s)"
  by (simp add: handle_gestures_def Let_def pitch_control_range two_hand_controls_range)

lemma foldl_handle_gestures_range:
  "parameters_in_range s \<Longrightarrow>
   parameters_in_range (foldl (\<lambda>s h. handle_gestures w h all s) s hs)"
  by (induction hs arbitrary: s) (simp_all add: handle_gestures_range)

lemma process_frame_range:
  "parameters_in_range s \<Longrightarrow> parameters_in_range (process_frame w hs s)"
proof -
  assume r: "parameters_in_range s"
  have "parameters_in_range (s\<lparr>hand_count := Some (length hs)\<rparr>)"
    using r by (simp add: parameters_in_range_def)
  then show ?thesis
    using r by (simp add: process_frame_def foldl_handle_gestures_range)
qed

lemma render_body_range:
  "parameters_in_range s \<Longrightarrow> parameters_in_range (snd (render_body f (\<lambda>s. s) s))"
  by (simp add: render_body_def Let_def parameters_in_range_def print_def mixer_def)

lemma process_audio_range:
  "parameters_in_range s \<Longrightarrow> parameters_in_range (snd (process_audio f s))"
  using render_body_range [of s f]
  by (auto simp add: process_audio_def process_audio_during_def parameters_in_range_def print_def
      split: prod.splits option.splits)

lemma stop_audio_range: "parameters_in_range s \<Longrightarrow> parameters_in_range (stop_audio s)"
  by (simp add: stop_audio_def parameters_in_range_def mixer_def)

lemma toggle_play_pause_range: "parameters_in_range s \<Longrightarrow> parameters_in_range (toggle_play_pause s)"
  by (simp add: toggle_play_pause_def parameters_in_range_def mixer_def print_def Let_def)

lemma reset_controls_range: "parameters_in_range (reset_controls w s)"
  by (simp add: reset_controls_def parameters_in_range_def mixer_def print_def Let_def)

lemma cleanup_range: "parameters_in_range s \<Longrightarrow> parameters_in_range (cleanup s)"
  using stop_audio_range [of s]
  by (simp add: cleanup_def parameters_in_range_def mixer_def Let_def)

lemma init_range: "parameters_in_range init"
  by (simp add: init_def parameters_in_range_def)

subsection \<open>Distance metric\<close>

text \<open>
  C8: the distance of two landmarks is symmetric, the distance of a landmark to itself
  is 0, and the function computes \<open>sqrt ((x1 - x2)\<^sup>2 + (y1 - y2)\<^sup>2)\<close> from its arguments
  alone.
\<close>

theorem calculate_distance_metric:
  "calculate_distance a b = calculate_distance b a
   \<and> calculate_distance a a = 0
   \<and> calculate_distance a b = sqrt ((lm_x a - lm_x b)\<^sup>2 + (lm_y a - lm_y b)\<^sup>2)"
  by (simp add: calculate_distance_def power2_commute)

subsection \<open>The gesture maps and the parameter ranges\<close>

text \<open>
  C7: for every pinch distance the derived pitch lies between -12 and 12, and the map from
  pinch distance to pitch is monotonically non-decreasing.
\<close>

theorem pitch_of_pinch_bounded_monotone:
  "-12 \<le> pitch_of_pinch d \<and> pitch_of_pinch d \<le> 12
   \<and> (d1 \<le> d2 \<longrightarrow> pitch_of_pinch d1 \<le> pitch_of_pinch d2)"
proof -
  have "d1 \<le> d2 \<Longrightarrow> (d1 - 0.1) * 48 - 12 \<le> (d2 - 0.1) * 48 - 12"
    by simp
  then have "d1 \<le> d2 \<Longrightarrow> pitch_of_pinch d1 \<le> pitch_of_pinch d2"
    unfolding pitch_of_pinch_def by (rule clip_mono)
  then show ?thesis
    using pitch_of_pinch_bounds [of d] by blast
qed

theorem pitch_of_pinch_bounded_monotone_witness:
  "(0.2::real) \<le> 0.3 \<and> pitch_of_pinch 0.2 = -7.2 \<and> pitch_of_pinch 0.3 = -2.4
   \<and> pitch_of_pinch 0.2 \<le> pitch_of_pinch 0.3 \<and> pitch_of_pinch 7 = 12 \<and> pitch_of_pinch 0 = -12"
  using pitch_of_pinch_bounded_monotone [of "0.3" "0.2" "0.3"]
  by (simp add: pitch_of_pinch_def clip_def)

text \<open>
  C4: every operation of the controller keeps the speed within 0.5 and 2.0 and the pitch
  within -12 and 12, the initial state is within these ranges, and the speed computed from
  any pinch distance lies within 0.5 and 2.0.
\<close>

theorem parameters_stay_in_range:
  "parameters_in_range init
   \<and> (parameters_in_range s \<longrightarrow>
        parameters_in_range (process_frame w hs s)
      \<and> parameters_in_range (handle_gestures w h hs s)
      \<and> parameters_in_range (adjust_audio w s)
      \<and> parameters_in_range (snd (process_audio f s))
      \<and> parameters_in_range (stop_audio s)
      \<and> parameters_in_range (toggle_play_pause s)
      \<and> parameters_in_range (reset_controls w s)
      \<and> parameters_in_range (cleanup s))
   \<and> 0.5 \<le> speed_of_pinch d \<and> speed_of_pinch d \<le> 2.0"
  using init_range process_frame_range handle_gestures_range adjust_audio_range
    process_audio_range stop_audio_range toggle_play_pause_range reset_controls_range
    cleanup_range speed_of_pinch_bounds [of d]
  by simp

lemma pinch_hand_with: "pinch (hand_with wx d) = \<bar>d\<bar>"
  by (simp add: pinch_def hand_with_def calculate_distance_def)

lemma wrists_hand_with: "calculate_distance (hand_with a d WRIST) (hand_with b e WRIST) = \<bar>a - b\<bar>"
  by (simp add: hand_with_def calculate_distance_def)

theorem parameters_stay_in_range_witness:
  "parameters_in_range init
   \<and> parameters_in_range (process_frame (steady_clock 1000 0.05) [hand_with 0 0.3, hand_with 0.5 0.3] init)
   \<and> parameters_in_range (reset_controls (steady_clock 1000 0.05) init)
   \<and> speed_of_pinch 0.3 = 1.4 \<and> speed_of_pinch 5 = 2 \<and> speed_of_pinch 0 = 0.8"
  using parameters_stay_in_range [of init "steady_clock 1000 0.05" "[hand_with 0 0.3, hand_with 0.5 0.3]"]
  by (simp add: speed_of_pinch_def clip_def)

subsection \<open>Reset\<close>

text \<open>
  C5: after \<^verbatim>\<open>reset_controls\<close> the current speed is 1.0 and the current pitch is 0.0, and
  if playback was stopped before, it is playing again: \<^verbatim>\<open>is_playing\<close> is true, \<^verbatim>\<open>paused\<close>
  is false and the mixer was told to play.
\<close>

theorem reset_controls_result:
  "current_speed (reset_controls w s) = 1.0
   \<and> current_pitch (reset_controls w s) = 0.0
   \<and> is_playing (reset_controls w s)
   \<and> (\<not> is_playing s \<longrightarrow>
        \<not> paused (reset_controls w s) \<and> mixer_busy (reset_controls w s)
        \<and> mixer_calls (reset_controls w s) = mixer_calls s @ [Play True])"
  by (simp add: reset_controls_def Let_def print_def mixer_def)

theorem reset_controls_result_witness:
  "\<not> is_playing (stop_audio init) \<and> \<not> mixer_busy (stop_audio init)
   \<and> current_speed (reset_controls (steady_clock 1000 0.05) (stop_audio init)) = 1.0
   \<and> current_pitch (reset_controls (steady_clock 1000 0.05) (stop_audio init)) = 0.0
   \<and> is_playing (reset_controls (steady_clock 1000 0.05) (stop_audio init))
   \<and> \<not> paused (reset_controls (steady_clock 1000 0.05) (stop_audio init))
   \<and> mixer_busy (reset_controls (steady_clock 1000 0.05) (stop_audio init))"
  using reset_controls_result [of "steady_clock 1000 0.05" "stop_audio init"]
  by (simp add: stop_audio_def init_def mixer_def)



subsection \<open>Frames with two hands\<close>

lemma speed_control_eq:
  "speed_control w h s =
     (if \<bar>speed_of_pinch (pinch h) - last_speed s\<bar> > speed_threshold s
      then adjust_audio w (s\<lparr>current_speed := speed_of_pinch (pinch h),
                              last_speed := speed_of_pinch (pinch h)\<rparr>)
      else s)"
  by (simp add: speed_control_def pinch_def Let_def)

lemma frequency_control_eq:
  "frequency_control w h s =
     (if \<bar>pitch_of_pinch (pinch h) - current_pitch s\<bar> > pitch_threshold s
      then adjust_audio w (s\<lparr>current_pitch := pitch_of_pinch (pinch h)\<rparr>)
      else s)"
  by (simp add: frequency_control_def pinch_def Let_def)

lemma pitch_control_eq:
  "pitch_control w h s =
     (if \<bar>pitch_of_pinch (pinch h) - last_pitch s\<bar> > pitch_threshold s
      then print (PitchUpdated (pitch_of_pinch (pinch h)))
             (adjust_audio w (s\<lparr>current_pitch := pitch_of_pinch (pinch h),
                                 last_pitch := pitch_of_pinch (pinch h)\<rparr>))
      else s)"
  by (simp add: pitch_control_def pinch_def Let_def)

lemma handle_gestures_two:
  "handle_gestures w h [h0, h1] s =
     pitch_control w h (frequency_control w h1 (speed_control w h0
       (mixer (SetVolume (clip (calculate_distance (h0 WRIST) (h1 WRIST)) 0 1)) s)))"
  by (simp add: handle_gestures_def two_hand_controls_def Let_def)

lemma handle_gestures_one: "handle_gestures w h [h0] s = pitch_control w h s"
  by (simp add: handle_gestures_def)

lemma process_frame_two:
  "process_frame w [h0, h1] s =
     handle_gestures w h1 [h0, h1] (handle_gestures w h0 [h0, h1] (s\<lparr>hand_count := Some 2\<rparr>))"
  by (simp add: process_frame_def numeral_2_eq_2)

lemma process_frame_one:
  "process_frame w [h0] s = pitch_control w h0 (s\<lparr>hand_count := Some 1\<rparr>)"
  by (simp add: process_frame_def handle_gestures_one)

lemma volume_calls_mixer:
  "volume_calls (mixer c s) = volume_calls s + (if is_SetVolume c then 1 else 0)"
  by (cases c) (simp_all add: volume_calls_def mixer_def)

lemma volume_calls_controls [simp]:
  "volume_calls (speed_control w h s) = volume_calls s"
  "volume_calls (frequency_control w h s) = volume_calls s"
  "volume_calls (pitch_control w h s) = volume_calls s"
  "volume_calls (s\<lparr>hand_count := c\<rparr>) = volume_calls s"
  by (simp_all add: volume_calls_def)

text \<open>
  C10: for a frame with exactly two hands, \<^verbatim>\<open>process_frame\<close> calls \<^verbatim>\<open>handle_gestures\<close> once
  for each hand with the full list, and every such call runs the whole two-hand branch
  (volume, speed check on hand 0, pitch check on hand 1) before the single-hand pitch check
  of its own hand: the two-hand mapping runs twice in the frame, and the volume is set twice.
\<close>

theorem two_hand_frame_runs_mapping_twice:
  "process_frame w [h0, h1] s =
     handle_gestures w h1 [h0, h1] (handle_gestures w h0 [h0, h1] (s\<lparr>hand_count := Some 2\<rparr>))
   \<and> handle_gestures w h [h0, h1] t =
       pitch_control w h (frequency_control w h1 (speed_control w h0
         (mixer (SetVolume (clip (calculate_distance (h0 WRIST) (h1 WRIST)) 0.0 1.0)) t)))
   \<and> volume_calls (process_frame w [h0, h1] s) = volume_calls s + 2"
  by (simp add: process_frame_two handle_gestures_two volume_calls_mixer)

theorem two_hand_frame_runs_mapping_twice_witness:
  "volume_calls init = 0
   \<and> volume_calls (process_frame (steady_clock 1000 0.05) [hand_with 0 0.4, hand_with 0.5 0.3] init) = 2
   \<and> adjust_calls (process_frame (steady_clock 1000 0.05) [hand_with 0 0.4, hand_with 0.5 0.3] init) = 5"
proof -
  have "volume_calls init = 0"
    by (simp add: volume_calls_def init_def)
  moreover have "adjust_calls (process_frame (steady_clock 1000 0.05) [hand_with 0 0.4, hand_with 0.5 0.3] init) = 5"
    by (simp add: process_frame_two handle_gestures_two speed_control_eq frequency_control_eq
        pitch_control_eq pinch_hand_with wrists_hand_with adjust_audio_eq mixer_def print_def
        speed_of_pinch_def pitch_of_pinch_def clip_def init_def steady_clock_def)
  moreover have "volume_calls (process_frame (steady_clock 1000 0.05) [hand_with 0 0.4, hand_with 0.5 0.3] init)
      = volume_calls init + 2"
    using two_hand_frame_runs_mapping_twice [of "steady_clock 1000 0.05" "hand_with 0 0.4" "hand_with 0.5 0.3" init]
    by blast
  ultimately show ?thesis
    by simp
qed


subsection \<open>Failure of a render pass\<close>

lemma process_audio_during_fields [simp]:
  "last_speed (snd (process_audio_during f m s)) = (if paused s then last_speed s else last_speed (m s))"
  "last_pitch (snd (process_audio_during f m s)) = (if paused s then last_pitch s else last_pitch (m s))"
  "current_speed (snd (process_audio_during f m s)) = (if paused s then current_speed s else current_speed (m s))"
  "current_pitch (snd (process_audio_during f m s)) = (if paused s then current_pitch s else current_pitch (m s))"
  "speed_threshold (snd (process_audio_during f m s)) = (if paused s then speed_threshold s else speed_threshold (m s))"
  "pitch_threshold (snd (process_audio_during f m s)) = (if paused s then pitch_threshold s else pitch_threshold (m s))"
  "update_interval (snd (process_audio_during f m s)) = (if paused s then update_interval s else update_interval (m s))"
  "last_update_time (snd (process_audio_during f m s)) = (if paused s then last_update_time s else last_update_time (m s))"
  "adjust_calls (snd (process_audio_during f m s)) = (if paused s then adjust_calls s else adjust_calls (m s))"
  "threads_started (snd (process_audio_during f m s)) = (if paused s then threads_started s else threads_started (m s))"
  "paused (snd (process_audio_during f m s)) = (if paused s then paused s else paused (m s))"
  by (simp_all add: process_audio_during_def render_body_def Let_def print_def mixer_def)

lemma process_audio_fields [simp]:
  "current_speed (snd (process_audio f s)) = current_speed s"
  "current_pitch (snd (process_audio f s)) = current_pitch s"
  "last_speed (snd (process_audio f s)) = last_speed s"
  "last_pitch (snd (process_audio f s)) = last_pitch s"
  "speed_threshold (snd (process_audio f s)) = speed_threshold s"
  "pitch_threshold (snd (process_audio f s)) = pitch_threshold s"
  "update_interval (snd (process_audio f s)) = update_interval s"
  "last_update_time (snd (process_audio f s)) = last_update_time s"
  "adjust_calls (snd (process_audio f s)) = adjust_calls s"
  "threads_started (snd (process_audio f s)) = threads_started s"
  "paused (snd (process_audio f s)) = paused s"
  by (simp_all add: process_audio_def)

lemma process_audio_during_plays:
  "\<not> paused s \<Longrightarrow>
   mixer_audio (snd (process_audio_during None m s))
     = Some (Rendered (current_speed s) (py_round (current_pitch (m s))))"
  by (simp add: process_audio_during_def render_body_def Let_def print_def mixer_def mixer_audio_def)

lemma process_audio_plays:
  "\<not> paused s \<Longrightarrow>
   mixer_audio (snd (process_audio None s)) = Some (Rendered (current_speed s) (py_round (current_pitch s)))"
  by (simp add: process_audio_def process_audio_during_plays)

lemma process_audio_load_fault:
  "\<not> paused s \<Longrightarrow>
   mixer_loaded (snd (process_audio (Some LoadRaises) s)) = mixer_loaded s
   \<and> temp_output (snd (process_audio (Some LoadRaises) s))
       = Some (Rendered (current_speed s) (py_round (current_pitch s)))
   \<and> fst (process_audio (Some LoadRaises) s) = None"
  by (simp add: process_audio_def process_audio_during_def render_body_def Let_def print_def)

lemma controls_fields2 [simp]:
  "paused (pitch_control w h s) = paused s"
  "mixer_loaded (pitch_control w h s) = mixer_loaded s"
  "paused (speed_control w h s) = paused s"
  "mixer_loaded (speed_control w h s) = mixer_loaded s"
  "paused (frequency_control w h s) = paused s"
  "mixer_loaded (frequency_control w h s) = mixer_loaded s"
  by (simp_all add: pitch_control_eq speed_control_eq frequency_control_eq print_def)

lemma mixer_audio_controls [simp]:
  "mixer_audio (pitch_control w h s) = mixer_audio s"
  "mixer_audio (speed_control w h s) = mixer_audio s"
  "mixer_audio (frequency_control w h s) = mixer_audio s"
  "mixer_audio (s\<lparr>hand_count := c\<rparr>) = mixer_audio s"
  by (simp_all add: mixer_audio_def pitch_control_eq speed_control_eq frequency_control_eq
      adjust_audio_eq print_def split: path.splits)

text \<open>
  C9, as the code has it: if the time-stretch, the pitch-shift, the write of the file or
  the load into the mixer raises, \<^verbatim>\<open>_process_audio\<close> catches the exception and prints it, no
  exception leaves the method (for any fault), the mixer receives no call and keeps the file
  it was given and its playing state, \<^verbatim>\<open>is_playing\<close>, \<^verbatim>\<open>paused\<close> and the parameters are as
  the frame loop left them, and no further render is attempted. The audio the mixer plays
  is unchanged when the time-stretch or the pitch-shift raised, or when the mixer still plays
  the audio file of the command line. When the write or the load raises, the one temporary
  file has been written over already: a mixer that plays this file from an earlier render
  then plays the new content (after a load that raised) or finds no complete audio (after a
  write that raised). A pass that finds playback paused does nothing.
\<close>

theorem render_failure_is_contained:
  "fst (process_audio_during fault meanwhile s) = None
   \<and> (paused s \<longrightarrow> snd (process_audio_during fault meanwhile s) = s)
   \<and> (\<not> paused s
       \<and> fault \<in> {Some TimeStretchRaises, Some PitchShiftRaises, Some WriteRaises, Some LoadRaises}
       \<and> r = snd (process_audio_during fault meanwhile s) \<and> t = meanwhile s \<longrightarrow>
        mixer_loaded r = mixer_loaded t
      \<and> mixer_busy r = mixer_busy t
      \<and> mixer_paused r = mixer_paused t
      \<and> mixer_calls r = mixer_calls t
      \<and> is_playing r = is_playing t
      \<and> paused r = paused t
      \<and> current_speed r = current_speed t
      \<and> current_pitch r = current_pitch t
      \<and> threads_started r = threads_started t
      \<and> adjust_calls r = adjust_calls t
      \<and> printed r = printed t @ [ErrorInAudioProcessing, CurrentSpeedPitch (current_speed t) (current_pitch t)]
      \<and> temp_output r =
          (if fault = Some WriteRaises then None
           else if fault = Some LoadRaises
           then Some (Rendered (current_speed s) (py_round (current_pitch t)))
           else temp_output t)
      \<and> (fault = Some TimeStretchRaises \<or> fault = Some PitchShiftRaises \<or> mixer_loaded t = AudioFile
           \<longrightarrow> mixer_audio r = mixer_audio t)
      \<and> (fault = Some LoadRaises \<and> mixer_loaded t = TempOutput
           \<longrightarrow> mixer_audio r = Some (Rendered (current_speed s) (py_round (current_pitch t)))))"
proof -
  have "fst (process_audio_during fault meanwhile s) = None"
    by (simp add: process_audio_during_def split: prod.splits option.splits)
  moreover have "paused s \<Longrightarrow> snd (process_audio_during fault meanwhile s) = s"
    by (simp add: process_audio_during_def render_body_def)
  moreover have "fault = Some TimeStretchRaises \<Longrightarrow> ?thesis"
    by (simp add: process_audio_during_def render_body_def Let_def print_def mixer_audio_def
        split: path.splits)
  moreover have "fault = Some PitchShiftRaises \<Longrightarrow> ?thesis"
    by (simp add: process_audio_during_def render_body_def Let_def print_def mixer_audio_def
        split: path.splits)
  moreover have "fault = Some WriteRaises \<Longrightarrow> ?thesis"
    by (simp add: process_audio_during_def render_body_def Let_def print_def mixer_audio_def
        split: path.splits)
  moreover have "fault = Some LoadRaises \<Longrightarrow> ?thesis"
    by (simp add: process_audio_during_def render_body_def Let_def print_def mixer_audio_def
        split: path.splits)
  ultimately show ?thesis
    by blast
qed

theorem render_failure_is_contained_witness:
  "\<not> paused init
   \<and> Some WriteRaises \<in> {Some TimeStretchRaises, Some PitchShiftRaises, Some WriteRaises, Some LoadRaises}
   \<and> mixer_loaded init = AudioFile
   \<and> fst (process_audio_during (Some WriteRaises) (\<lambda>s. s) init) = None
   \<and> mixer_loaded (snd (process_audio_during (Some WriteRaises) (\<lambda>s. s) init)) = AudioFile
   \<and> is_playing (snd (process_audio_during (Some WriteRaises) (\<lambda>s. s) init)) = is_playing init
   \<and> mixer_calls (snd (process_audio_during (Some WriteRaises) (\<lambda>s. s) init)) = mixer_calls init
   \<and> printed (snd (process_audio_during (Some WriteRaises) (\<lambda>s. s) init))
       = printed init @ [ErrorInAudioProcessing, CurrentSpeedPitch (current_speed init) (current_pitch init)]
   \<and> temp_output (snd (process_audio_during (Some WriteRaises) (\<lambda>s. s) init)) = None
   \<and> mixer_audio (snd (process_audio_during (Some WriteRaises) (\<lambda>s. s) init)) = mixer_audio init"
proof -
  have i: "\<not> paused init" "mixer_loaded init = AudioFile"
    by (simp_all add: init_def)
  have m: "Some WriteRaises \<in> {Some TimeStretchRaises, Some PitchShiftRaises, Some WriteRaises, Some LoadRaises}"
    by simp
  from render_failure_is_contained [of "Some WriteRaises" "\<lambda>s. s" init
      "snd (process_audio_during (Some WriteRaises) (\<lambda>s. s) init)" init] i m
  show ?thesis
    by simp
qed

text \<open>
  C9 as stated fails: a first render pass succeeds and the mixer plays the temporary file,
  which holds the source shifted by 2 semitones. A later frame sets the pitch to -2.4 and
  starts a second pass, whose load raises after its write succeeded. No exception leaves
  the pass, and the mixer, still playing the temporary file, now plays the source shifted
  by -2 semitones: the audio loaded before is gone.
\<close>

theorem failed_load_changes_playing_audio:
  "threads_started (process_frame (steady_clock 1000 1) [hand_with 0 0.3]
      (snd (process_audio None (process_frame (steady_clock 1000 1) [hand_with 0 0.4] init)))) = 2
   \<and> mixer_audio (process_frame (steady_clock 1000 1) [hand_with 0 0.3]
      (snd (process_audio None (process_frame (steady_clock 1000 1) [hand_with 0 0.4] init))))
      = Some (Rendered 1 2)
   \<and> fst (process_audio (Some LoadRaises) (process_frame (steady_clock 1000 1) [hand_with 0 0.3]
      (snd (process_audio None (process_frame (steady_clock 1000 1) [hand_with 0 0.4] init))))) = None
   \<and> mixer_audio (snd (process_audio (Some LoadRaises) (process_frame (steady_clock 1000 1) [hand_with 0 0.3]
      (snd (process_audio None (process_frame (steady_clock 1000 1) [hand_with 0 0.4] init))))))
      = Some (Rendered 1 (-2))
   \<and> Some (Rendered 1 (-2)) \<noteq> Some (Rendered 1 2)"
proof -
  define W where "W = steady_clock 1000 1"
  define A where "A = hand_with 0 0.4"
  define B where "B = hand_with 0 0.3"
  define s1 where "s1 = process_frame W [A] init"
  define s2 where "s2 = snd (process_audio None s1)"
  define s3 where "s3 = process_frame W [B] s2"
  define s4 where "s4 = snd (process_audio (Some LoadRaises) s3)"
  have cA: "pitch_of_pinch (pinch A) = 2.4" and cB: "pitch_of_pinch (pinch B) = -2.4"
    by (simp_all add: A_def B_def pinch_hand_with pitch_of_pinch_def clip_def)
  have r: "py_round (-2.4) = -2" "py_round 2.4 = 2"
    by (simp_all add: py_round_def Let_def)
  have f1: "threads_started s1 = 1" "last_pitch s1 = 2.4" "current_pitch s1 = 2.4"
    "current_speed s1 = 1" "pitch_threshold s1 = 0.5" "update_interval s1 = 0.2"
    "adjust_calls s1 = 1" "last_update_time s1 = 1000" "\<not> paused s1"
    by (simp_all add: s1_def process_frame_one pitch_control_eq cA adjust_audio_eq print_def
        W_def init_def steady_clock_def)
  have f2a: "mixer_audio s2 = Some (Rendered 1 2)"
    using r by (simp add: s2_def process_audio_plays f1)
  have f2b: "mixer_loaded s2 = TempOutput"
    using f1
    by (simp add: s2_def process_audio_def process_audio_during_def render_body_def Let_def
        print_def mixer_def)
  note f2 = f2a f2b
  have f2': "threads_started s2 = 1" "last_pitch s2 = 2.4" "pitch_threshold s2 = 0.5"
    "update_interval s2 = 0.2" "adjust_calls s2 = 1" "last_update_time s2 = 1000"
    "current_speed s2 = 1" "\<not> paused s2"
    using f1 by (simp_all add: s2_def)
  have f3: "threads_started s3 = 2" "current_pitch s3 = -2.4" "current_speed s3 = 1" "\<not> paused s3"
    using f2'
    by (simp_all add: s3_def process_frame_one pitch_control_eq cB adjust_audio_eq print_def
        W_def steady_clock_def)
  have m3: "mixer_audio s3 = Some (Rendered 1 2)" "mixer_loaded s3 = TempOutput"
    by (simp_all add: s3_def process_frame_one f2)
  have l: "fst (process_audio (Some LoadRaises) s3) = None"
    "mixer_loaded s4 = TempOutput" "temp_output s4 = Some (Rendered 1 (-2))"
    using process_audio_load_fault [of s3] r by (simp_all add: s4_def f3 m3)
  then have m4: "mixer_audio s4 = Some (Rendered 1 (-2))"
    by (simp add: mixer_audio_def)
  have ne: "Some (Rendered 1 (-2)) \<noteq> Some (Rendered 1 2)"
    by simp
  from f3(1) m3(1) l(1) m4 ne show ?thesis
    unfolding s4_def s3_def s2_def s1_def W_def A_def B_def by blast
qed

subsection \<open>A two-hand frame from end to end\<close>

lemma threads_started_mono:
  "threads_started s \<le> threads_started (adjust_audio w s)"
  "threads_started s \<le> threads_started (speed_control w h s)"
  "threads_started s \<le> threads_started (frequency_control w h s)"
  "threads_started s \<le> threads_started (pitch_control w h s)"
  by (simp_all add: adjust_audio_eq speed_control_eq frequency_control_eq pitch_control_eq print_def)

lemma mixer_fields [simp]:
  "current_speed (mixer c s) = current_speed s"
  "current_pitch (mixer c s) = current_pitch s"
  "last_speed (mixer c s) = last_speed s"
  "last_pitch (mixer c s) = last_pitch s"
  "speed_threshold (mixer c s) = speed_threshold s"
  "pitch_threshold (mixer c s) = pitch_threshold s"
  "update_interval (mixer c s) = update_interval s"
  "last_update_time (mixer c s) = last_update_time s"
  "adjust_calls (mixer c s) = adjust_calls s"
  "threads_started (mixer c s) = threads_started s"
  by (cases c; simp add: mixer_def)+

lemma mixer_volume_controls [simp]:
  "mixer_volume (mixer (SetVolume v) s) = v"
  by (simp add: mixer_def)

lemma two_hand_controls_eq:
  "two_hand_controls w h0 h1 s =
     frequency_control w h1 (speed_control w h0
       (mixer (SetVolume (clip (calculate_distance (h0 WRIST) (h1 WRIST)) 0 1)) s))"
  by (simp add: two_hand_controls_def Let_def)

lemma handle_gestures_two_hand_controls:
  "handle_gestures w h [h0, h1] s = pitch_control w h (two_hand_controls w h0 h1 s)"
  by (simp add: handle_gestures_def)

text \<open>
  C3: for a frame with exactly two hands, wrists 0.5 apart and a pinch of 0.3 on both hands,
  the volume of the mixer is set to 0.5 whatever the state of the debouncer (first
  conjunct, for any state \<open>t\<close>), the speed candidate is 1.4 and the pitch candidate is -2.4.
  From the default debounce state with the time gate open, the two-hand branch (lines 110
  to 146) alone sets the volume to 0.5, the speed to 1.4 and the pitch to -2.4, enters
  \<^verbatim>\<open>adjust_audio\<close> twice and starts a render thread; the whole frame leaves speed 1.4 and
  pitch -2.4 after three entries of \<^verbatim>\<open>adjust_audio\<close> (speed, two-hand pitch, single-hand
  pitch) and has started a render thread, exactly one when the two later entries read a
  time less than the update interval after the first.
\<close>

theorem two_hand_frame_end_to_end:
  assumes wr: "calculate_distance (h0 WRIST) (h1 WRIST) = 0.5"
    and p0: "pinch h0 = 0.3" and p1: "pinch h1 = 0.3"
    and ls: "last_speed s = 1.0" and lp: "last_pitch s = 0.0" and cp: "current_pitch s = 0.0"
    and st: "speed_threshold s = 0.05" and pt: "pitch_threshold s = 0.5"
    and gate: "update_interval s \<le> time_time w (adjust_calls s) - last_update_time s"
    and ok: "thread_start_ok w (adjust_calls s)"
  shows "mixer_volume (process_frame w [h0, h1] t) = 0.5
    \<and> speed_of_pinch (pinch h0) = 1.4 \<and> pitch_of_pinch (pinch h1) = -2.4
    \<and> mixer_volume (two_hand_controls w h0 h1 s) = 0.5
    \<and> current_speed (two_hand_controls w h0 h1 s) = 1.4
    \<and> current_pitch (two_hand_controls w h0 h1 s) = -2.4
    \<and> adjust_calls (two_hand_controls w h0 h1 s) = adjust_calls s + 2
    \<and> threads_started s < threads_started (two_hand_controls w h0 h1 s)
    \<and> mixer_volume (process_frame w [h0, h1] s) = 0.5
    \<and> current_speed (process_frame w [h0, h1] s) = 1.4
    \<and> current_pitch (process_frame w [h0, h1] s) = -2.4
    \<and> adjust_calls (process_frame w [h0, h1] s) = adjust_calls s + 3
    \<and> threads_started s < threads_started (process_frame w [h0, h1] s)
    \<and> (time_time w (adjust_calls s + 1) - time_time w (adjust_calls s) < update_interval s
        \<and> time_time w (adjust_calls s + 2) - time_time w (adjust_calls s) < update_interval s
        \<longrightarrow> threads_started (process_frame w [h0, h1] s) = threads_started s + 1)"
proof -
  define n where "n = adjust_calls s"
  define vol where "vol = SetVolume (clip (calculate_distance (h0 WRIST) (h1 WRIST)) 0 1)"
  have v: "\<And>t. mixer_volume (process_frame w [h0, h1] t) = 0.5"
    using wr by (simp add: process_frame_two handle_gestures_two clip_def)
  have sp: "speed_of_pinch (pinch h0) = 1.4"
    using p0 by (simp add: speed_of_pinch_def clip_def)
  have pi: "pitch_of_pinch (pinch h1) = -2.4" "pitch_of_pinch (pinch h0) = -2.4"
    using p0 p1 by (simp_all add: pitch_of_pinch_def clip_def)
  have branch: "mixer_volume (two_hand_controls w h0 h1 x) = 0.5
      \<and> current_speed (two_hand_controls w h0 h1 x) = 1.4
      \<and> last_speed (two_hand_controls w h0 h1 x) = 1.4
      \<and> current_pitch (two_hand_controls w h0 h1 x) = -2.4
      \<and> last_pitch (two_hand_controls w h0 h1 x) = 0
      \<and> speed_threshold (two_hand_controls w h0 h1 x) = 0.05
      \<and> pitch_threshold (two_hand_controls w h0 h1 x) = 0.5
      \<and> update_interval (two_hand_controls w h0 h1 x) = update_interval s
      \<and> adjust_calls (two_hand_controls w h0 h1 x) = n + 2
      \<and> threads_started s < threads_started (two_hand_controls w h0 h1 x)
      \<and> (time_time w (n + 1) - time_time w n < update_interval s
          \<longrightarrow> threads_started (two_hand_controls w h0 h1 x) = threads_started s + 1
            \<and> last_update_time (two_hand_controls w h0 h1 x) = time_time w n)"
    if x: "last_speed x = 1" "last_pitch x = 0" "current_pitch x = 0" "speed_threshold x = 0.05"
      "pitch_threshold x = 0.5" "adjust_calls x = n" "last_update_time x = last_update_time s"
      "update_interval x = update_interval s" "threads_started x = threads_started s"
    for x
  proof -
    define x1 where "x1 = mixer vol x"
    define x2 where "x2 = speed_control w h0 x1"
    define x3 where "x3 = frequency_control w h1 x2"
    have e: "two_hand_controls w h0 h1 x = x3"
      by (simp add: two_hand_controls_eq x3_def x2_def x1_def vol_def)
    have f1: "last_speed x1 = 1" "last_pitch x1 = 0" "current_pitch x1 = 0"
      "speed_threshold x1 = 0.05" "pitch_threshold x1 = 0.5" "adjust_calls x1 = n"
      "last_update_time x1 = last_update_time s" "update_interval x1 = update_interval s"
      "threads_started x1 = threads_started s" "mixer_volume x1 = 0.5"
      using wr by (simp_all add: x1_def vol_def x clip_def)
    have e2: "x2 = adjust_audio w (x1\<lparr>current_speed := 1.4, last_speed := 1.4\<rparr>)"
      by (simp add: x2_def speed_control_eq sp f1)
    have f2: "current_speed x2 = 1.4" "last_speed x2 = 1.4" "last_pitch x2 = 0"
      "current_pitch x2 = 0" "speed_threshold x2 = 0.05" "pitch_threshold x2 = 0.5"
      "update_interval x2 = update_interval s" "adjust_calls x2 = n + 1" "mixer_volume x2 = 0.5"
      by (simp_all add: e2 f1)
    have t2: "threads_started x2 = threads_started s + 1" "last_update_time x2 = time_time w n"
      using gate ok by (simp_all add: e2 adjust_audio_eq f1 n_def [symmetric])
    have e3: "x3 = adjust_audio w (x2\<lparr>current_pitch := - 2.4\<rparr>)"
      by (simp add: x3_def frequency_control_eq pi f2)
    have f3: "current_speed x3 = 1.4" "last_speed x3 = 1.4" "last_pitch x3 = 0"
      "current_pitch x3 = - 2.4" "speed_threshold x3 = 0.05" "pitch_threshold x3 = 0.5"
      "update_interval x3 = update_interval s" "adjust_calls x3 = n + 2" "mixer_volume x3 = 0.5"
      by (simp_all add: e3 f2)
    have t3: "threads_started s < threads_started x3"
      using t2 threads_started_mono(3) [of x2 w h1] by (simp add: x3_def)
    have q3: "threads_started x3 = threads_started s + 1 \<and> last_update_time x3 = time_time w n"
      if "time_time w (n + 1) - time_time w n < update_interval s"
      using that by (simp add: e3 adjust_audio_eq f2 t2)
    from f3 t3 q3 show ?thesis
      unfolding e by simp
  qed
  have b0: "mixer_volume (two_hand_controls w h0 h1 s) = 0.5
      \<and> current_speed (two_hand_controls w h0 h1 s) = 1.4
      \<and> current_pitch (two_hand_controls w h0 h1 s) = -2.4
      \<and> adjust_calls (two_hand_controls w h0 h1 s) = adjust_calls s + 2
      \<and> threads_started s < threads_started (two_hand_controls w h0 h1 s)"
    using branch [of s] ls lp cp st pt by (simp add: n_def)
  define y where "y = two_hand_controls w h0 h1 (s\<lparr>hand_count := Some 2\<rparr>)"
  define s4 where "s4 = pitch_control w h0 y"
  define s5 where "s5 = mixer vol s4"
  have fy: "mixer_volume y = 0.5" "current_speed y = 1.4" "last_speed y = 1.4"
    "current_pitch y = - 2.4" "last_pitch y = 0" "speed_threshold y = 0.05"
    "pitch_threshold y = 0.5" "update_interval y = update_interval s" "adjust_calls y = n + 2"
    "threads_started s < threads_started y"
    using branch [of "s\<lparr>hand_count := Some 2\<rparr>"] ls lp cp st pt by (simp_all add: y_def n_def)
  have qy: "threads_started y = threads_started s + 1 \<and> last_update_time y = time_time w n"
    if "time_time w (n + 1) - time_time w n < update_interval s"
    using that branch [of "s\<lparr>hand_count := Some 2\<rparr>"] ls lp cp st pt by (simp add: y_def n_def)
  have e4: "s4 = print (PitchUpdated (- 2.4))
      (adjust_audio w (y\<lparr>current_pitch := - 2.4, last_pitch := - 2.4\<rparr>))"
    by (simp add: s4_def pitch_control_eq pi fy)
  have f4: "current_speed s4 = 1.4" "last_speed s4 = 1.4" "last_pitch s4 = - 2.4"
    "current_pitch s4 = - 2.4" "speed_threshold s4 = 0.05" "pitch_threshold s4 = 0.5"
    "adjust_calls s4 = n + 3"
    by (simp_all add: e4 fy print_def)
  have t4: "threads_started s < threads_started s4"
    using fy(10) threads_started_mono(4) [of y w h0] by (simp add: s4_def)
  have q4: "threads_started s4 = threads_started s + 1"
    if "time_time w (n + 1) - time_time w n < update_interval s"
      and "time_time w (n + 2) - time_time w n < update_interval s"
    using that qy by (simp add: e4 adjust_audio_eq fy print_def)
  have f5: "current_speed s5 = 1.4" "last_speed s5 = 1.4" "last_pitch s5 = - 2.4"
    "current_pitch s5 = - 2.4" "speed_threshold s5 = 0.05" "pitch_threshold s5 = 0.5"
    "threads_started s5 = threads_started s4" "adjust_calls s5 = n + 3"
    by (simp_all add: s5_def f4)
  have pass1: "handle_gestures w h0 [h0, h1] (s\<lparr>hand_count := Some 2\<rparr>) = s4"
    by (simp add: handle_gestures_two_hand_controls s4_def y_def)
  have "speed_control w h0 s5 = s5"
    by (simp add: speed_control_eq sp f5)
  moreover have "frequency_control w h1 s5 = s5"
    by (simp add: frequency_control_eq pi f5)
  moreover have "pitch_control w h1 s5 = s5"
    by (simp add: pitch_control_eq pi f5)
  ultimately have pass2: "handle_gestures w h1 [h0, h1] s4 = s5"
    by (simp add: handle_gestures_two s5_def vol_def)
  have fin: "process_frame w [h0, h1] s = s5"
    by (simp add: process_frame_two pass1 pass2)
  have c: "current_speed (process_frame w [h0, h1] s) = 1.4"
    "current_pitch (process_frame w [h0, h1] s) = -2.4"
    "adjust_calls (process_frame w [h0, h1] s) = adjust_calls s + 3"
    "threads_started s < threads_started (process_frame w [h0, h1] s)"
    using fin f5 t4 by (simp_all add: n_def)
  have once: "time_time w (adjust_calls s + 1) - time_time w (adjust_calls s) < update_interval s
        \<and> time_time w (adjust_calls s + 2) - time_time w (adjust_calls s) < update_interval s
        \<longrightarrow> threads_started (process_frame w [h0, h1] s) = threads_started s + 1"
    using q4 fin f5(7) by (simp add: n_def)
  from v [of t] sp pi(1) b0 v [of s] c once show ?thesis
    by blast
qed

theorem two_hand_frame_end_to_end_witness:
  "calculate_distance (hand_with 0 0.3 WRIST) (hand_with 0.5 0.3 WRIST) = 0.5
   \<and> pinch (hand_with 0 0.3) = 0.3 \<and> pinch (hand_with 0.5 0.3) = 0.3
   \<and> update_interval init \<le> time_time (steady_clock 1000 0.05) (adjust_calls init) - last_update_time init
   \<and> mixer_volume (process_frame (steady_clock 1000 0.05) [hand_with 0 0.3, hand_with 0.5 0.3] init) = 0.5
   \<and> current_speed (process_frame (steady_clock 1000 0.05) [hand_with 0 0.3, hand_with 0.5 0.3] init) = 1.4
   \<and> current_pitch (process_frame (steady_clock 1000 0.05) [hand_with 0 0.3, hand_with 0.5 0.3] init) = -2.4
   \<and> current_pitch (two_hand_controls (steady_clock 1000 0.05) (hand_with 0 0.3) (hand_with 0.5 0.3) init) = -2.4
   \<and> adjust_calls (process_frame (steady_clock 1000 0.05) [hand_with 0 0.3, hand_with 0.5 0.3] init)
       = adjust_calls init + 3
   \<and> threads_started (process_frame (steady_clock 1000 0.05) [hand_with 0 0.3, hand_with 0.5 0.3] init)
       = threads_started init + 1"
proof -
  define W where "W = steady_clock 1000 0.05"
  define A where "A = hand_with 0 0.3"
  define B where "B = hand_with 0.5 0.3"
  have h: "calculate_distance (A WRIST) (B WRIST) = 0.5" "pinch A = 0.3" "pinch B = 0.3"
    by (simp_all add: A_def B_def wrists_hand_with pinch_hand_with)
  have i: "last_speed init = 1.0" "last_pitch init = 0.0" "current_pitch init = 0.0"
    "speed_threshold init = 0.05" "pitch_threshold init = 0.5"
    by (simp_all add: init_def)
  have g: "update_interval init \<le> time_time W (adjust_calls init) - last_update_time init"
    by (simp add: W_def init_def steady_clock_def)
  have o: "thread_start_ok W (adjust_calls init)"
    by (simp add: W_def steady_clock_def)
  have q: "time_time W (adjust_calls init + 1) - time_time W (adjust_calls init) < update_interval init
      \<and> time_time W (adjust_calls init + 2) - time_time W (adjust_calls init) < update_interval init"
    by (simp add: W_def init_def steady_clock_def)
  show ?thesis
    using two_hand_frame_end_to_end [OF h i g o] h g q
    unfolding W_def A_def B_def by blast
qed

subsection \<open>The time gate\<close>

lemma respects_gateI:
  assumes "\<And>s. adjust_calls s \<le> adjust_calls (F s)"
    and "\<And>s. update_interval (F s) = update_interval s"
    and "\<And>s. (\<And>j. adjust_calls s \<le> j \<Longrightarrow> j < adjust_calls (F s)
                \<Longrightarrow> time_time w j - last_update_time s < update_interval s)
            \<Longrightarrow> threads_started (F s) = threads_started s
              \<and> last_update_time (F s) = last_update_time s"
    and "\<And>s. update_interval s \<le> time_time w (adjust_calls s) - last_update_time s
            \<Longrightarrow> thread_start_ok w (adjust_calls s)
            \<Longrightarrow> (\<And>j. adjust_calls s < j \<Longrightarrow> j < adjust_calls (F s)
                  \<Longrightarrow> time_time w j - time_time w (adjust_calls s) < update_interval s)
            \<Longrightarrow> threads_started (F s)
                  = threads_started s + (if adjust_calls (F s) = adjust_calls s then 0 else 1)
              \<and> last_update_time (F s)
                  = (if adjust_calls (F s) = adjust_calls s then last_update_time s
                     else time_time w (adjust_calls s))"
  shows "respects_gate w F"
  unfolding respects_gate_def using assms by blast

lemma respects_gate_calls: "respects_gate w F \<Longrightarrow> adjust_calls s \<le> adjust_calls (F s)"
  unfolding respects_gate_def by blast

lemma respects_gate_interval: "respects_gate w F \<Longrightarrow> update_interval (F s) = update_interval s"
  unfolding respects_gate_def by blast

lemma respects_gate_shut:
  assumes "respects_gate w F"
    and "\<And>j. adjust_calls s \<le> j \<Longrightarrow> j < adjust_calls (F s)
            \<Longrightarrow> time_time w j - last_update_time s < update_interval s"
  shows "threads_started (F s) = threads_started s \<and> last_update_time (F s) = last_update_time s"
  using assms unfolding respects_gate_def by blast

lemma respects_gate_open:
  assumes "respects_gate w F"
    and "update_interval s \<le> time_time w (adjust_calls s) - last_update_time s"
    and "thread_start_ok w (adjust_calls s)"
    and "\<And>j. adjust_calls s < j \<Longrightarrow> j < adjust_calls (F s)
            \<Longrightarrow> time_time w j - time_time w (adjust_calls s) < update_interval s"
  shows "threads_started (F s)
           = threads_started s + (if adjust_calls (F s) = adjust_calls s then 0 else 1)
       \<and> last_update_time (F s)
           = (if adjust_calls (F s) = adjust_calls s then last_update_time s
              else time_time w (adjust_calls s))"
  using assms unfolding respects_gate_def by blast

lemma respects_gate_adjust_audio: "respects_gate w (adjust_audio w)"
proof (rule respects_gateI)
  fix s
  show "adjust_calls s \<le> adjust_calls (adjust_audio w s)"
    by simp
  show "update_interval (adjust_audio w s) = update_interval s"
    by simp
  show "threads_started (adjust_audio w s) = threads_started s
      \<and> last_update_time (adjust_audio w s) = last_update_time s"
    if "\<And>j. adjust_calls s \<le> j \<Longrightarrow> j < adjust_calls (adjust_audio w s)
            \<Longrightarrow> time_time w j - last_update_time s < update_interval s"
  proof -
    have "time_time w (adjust_calls s) - last_update_time s < update_interval s"
      using that [of "adjust_calls s"] by simp
    then show ?thesis
      by (simp add: adjust_audio_eq)
  qed
  show "threads_started (adjust_audio w s)
          = threads_started s + (if adjust_calls (adjust_audio w s) = adjust_calls s then 0 else 1)
      \<and> last_update_time (adjust_audio w s)
          = (if adjust_calls (adjust_audio w s) = adjust_calls s then last_update_time s
             else time_time w (adjust_calls s))"
    if "update_interval s \<le> time_time w (adjust_calls s) - last_update_time s"
      and "thread_start_ok w (adjust_calls s)"
    using that by (simp add: adjust_audio_eq)
qed

lemma respects_gate_silent:
  assumes "\<And>s. adjust_calls (f s) = adjust_calls s" and "\<And>s. update_interval (f s) = update_interval s"
    and "\<And>s. threads_started (f s) = threads_started s"
    and "\<And>s. last_update_time (f s) = last_update_time s"
  shows "respects_gate w f"
  by (rule respects_gateI) (simp_all add: assms)

lemma respects_gate_comp:
  assumes F: "respects_gate w F" and G: "respects_gate w G"
  shows "respects_gate w (\<lambda>s. G (F s))"
proof (rule respects_gateI)
  fix s
  have n1: "adjust_calls s \<le> adjust_calls (F s)"
    by (rule respects_gate_calls [OF F])
  have n2: "adjust_calls (F s) \<le> adjust_calls (G (F s))"
    by (rule respects_gate_calls [OF G])
  have ui: "update_interval (F s) = update_interval s"
    by (rule respects_gate_interval [OF F])
  show "adjust_calls s \<le> adjust_calls (G (F s))"
    using n1 n2 by simp
  show "update_interval (G (F s)) = update_interval s"
    using respects_gate_interval [OF G, of "F s"] ui by simp
  show "threads_started (G (F s)) = threads_started s
      \<and> last_update_time (G (F s)) = last_update_time s"
    if H: "\<And>j. adjust_calls s \<le> j \<Longrightarrow> j < adjust_calls (G (F s))
            \<Longrightarrow> time_time w j - last_update_time s < update_interval s"
  proof -
    have a: "threads_started (F s) = threads_started s \<and> last_update_time (F s) = last_update_time s"
      using n2 by (intro respects_gate_shut [OF F] H) simp_all
    have "threads_started (G (F s)) = threads_started (F s)
        \<and> last_update_time (G (F s)) = last_update_time (F s)"
    proof (rule respects_gate_shut [OF G])
      fix j
      assume "adjust_calls (F s) \<le> j" and "j < adjust_calls (G (F s))"
      then show "time_time w j - last_update_time (F s) < update_interval (F s)"
        using H [of j] n1 a ui by simp
    qed
    with a show ?thesis
      by simp
  qed
  show "threads_started (G (F s))
          = threads_started s + (if adjust_calls (G (F s)) = adjust_calls s then 0 else 1)
      \<and> last_update_time (G (F s))
          = (if adjust_calls (G (F s)) = adjust_calls s then last_update_time s
             else time_time w (adjust_calls s))"
    if op: "update_interval s \<le> time_time w (adjust_calls s) - last_update_time s"
      and ok: "thread_start_ok w (adjust_calls s)"
      and Q: "\<And>j. adjust_calls s < j \<Longrightarrow> j < adjust_calls (G (F s))
            \<Longrightarrow> time_time w j - time_time w (adjust_calls s) < update_interval s"
  proof -
    have a: "threads_started (F s)
          = threads_started s + (if adjust_calls (F s) = adjust_calls s then 0 else 1)
        \<and> last_update_time (F s)
          = (if adjust_calls (F s) = adjust_calls s then last_update_time s
             else time_time w (adjust_calls s))"
    proof (rule respects_gate_open [OF F op ok])
      fix j
      assume "adjust_calls s < j" and "j < adjust_calls (F s)"
      then show "time_time w j - time_time w (adjust_calls s) < update_interval s"
        using Q [of j] n2 by simp
    qed
    show ?thesis
    proof (cases "adjust_calls (F s) = adjust_calls s")
      case True
      have "threads_started (G (F s))
            = threads_started (F s) + (if adjust_calls (G (F s)) = adjust_calls (F s) then 0 else 1)
          \<and> last_update_time (G (F s))
            = (if adjust_calls (G (F s)) = adjust_calls (F s) then last_update_time (F s)
               else time_time w (adjust_calls (F s)))"
      proof (rule respects_gate_open [OF G])
        show "update_interval (F s) \<le> time_time w (adjust_calls (F s)) - last_update_time (F s)"
          using op a True ui by simp
        show "thread_start_ok w (adjust_calls (F s))"
          using ok True by simp
        fix j
        assume "adjust_calls (F s) < j" and "j < adjust_calls (G (F s))"
        then show "time_time w j - time_time w (adjust_calls (F s)) < update_interval (F s)"
          using Q [of j] True ui by simp
      qed
      with a True show ?thesis
        by simp
    next
      case False
      then have lt: "adjust_calls s < adjust_calls (F s)"
        using n1 by simp
      have "threads_started (G (F s)) = threads_started (F s)
          \<and> last_update_time (G (F s)) = last_update_time (F s)"
      proof (rule respects_gate_shut [OF G])
        fix j
        assume "adjust_calls (F s) \<le> j" and "j < adjust_calls (G (F s))"
        then show "time_time w j - last_update_time (F s) < update_interval (F s)"
          using Q [of j] lt a False ui by simp
      qed
      moreover have "adjust_calls (G (F s)) \<noteq> adjust_calls s"
        using lt n2 by simp
      ultimately show ?thesis
        using a False by simp
    qed
  qed
qed

lemma respects_gate_if:
  assumes "respects_gate w F" and "respects_gate w G"
  shows "respects_gate w (\<lambda>s. if c s then F s else G s)"
  using assms unfolding respects_gate_def by simp

lemma respects_gate_id: "respects_gate w (\<lambda>s. s)"
  by (rule respects_gate_silent) simp_all

lemma respects_gate_speed_control: "respects_gate w (speed_control w h)"
proof -
  have "respects_gate w (\<lambda>s. if speed_threshold s < \<bar>speed_of_pinch (pinch h) - last_speed s\<bar>
      then adjust_audio w (s\<lparr>current_speed := speed_of_pinch (pinch h),
                              last_speed := speed_of_pinch (pinch h)\<rparr>)
      else s)"
    by (intro respects_gate_if respects_gate_id
        respects_gate_comp [OF _ respects_gate_adjust_audio] respects_gate_silent) simp_all
  moreover have "speed_control w h = (\<lambda>s. if speed_threshold s < \<bar>speed_of_pinch (pinch h) - last_speed s\<bar>
      then adjust_audio w (s\<lparr>current_speed := speed_of_pinch (pinch h),
                              last_speed := speed_of_pinch (pinch h)\<rparr>)
      else s)"
    by (rule ext) (simp add: speed_control_eq)
  ultimately show ?thesis
    by simp
qed

lemma respects_gate_frequency_control: "respects_gate w (frequency_control w h)"
proof -
  have "respects_gate w (\<lambda>s. if pitch_threshold s < \<bar>pitch_of_pinch (pinch h) - current_pitch s\<bar>
      then adjust_audio w (s\<lparr>current_pitch := pitch_of_pinch (pinch h)\<rparr>)
      else s)"
    by (intro respects_gate_if respects_gate_id
        respects_gate_comp [OF _ respects_gate_adjust_audio] respects_gate_silent) simp_all
  moreover have "frequency_control w h = (\<lambda>s. if pitch_threshold s < \<bar>pitch_of_pinch (pinch h) - current_pitch s\<bar>
      then adjust_audio w (s\<lparr>current_pitch := pitch_of_pinch (pinch h)\<rparr>)
      else s)"
    by (rule ext) (simp add: frequency_control_eq)
  ultimately show ?thesis
    by simp
qed

lemma respects_gate_print: "respects_gate w (print m)"
  by (rule respects_gate_silent) (simp_all add: print_def)

lemma respects_gate_mixer: "respects_gate w (mixer c)"
  by (rule respects_gate_silent) simp_all

lemma respects_gate_pitch_control: "respects_gate w (pitch_control w h)"
proof -
  have "respects_gate w (\<lambda>s. if pitch_threshold s < \<bar>pitch_of_pinch (pinch h) - last_pitch s\<bar>
      then print (PitchUpdated (pitch_of_pinch (pinch h)))
             (adjust_audio w (s\<lparr>current_pitch := pitch_of_pinch (pinch h),
                                 last_pitch := pitch_of_pinch (pinch h)\<rparr>))
      else s)"
    by (intro respects_gate_if respects_gate_id
        respects_gate_comp [OF _ respects_gate_print]
        respects_gate_comp [OF _ respects_gate_adjust_audio] respects_gate_silent) simp_all
  moreover have "pitch_control w h = (\<lambda>s. if pitch_threshold s < \<bar>pitch_of_pinch (pinch h) - last_pitch s\<bar>
      then print (PitchUpdated (pitch_of_pinch (pinch h)))
             (adjust_audio w (s\<lparr>current_pitch := pitch_of_pinch (pinch h),
                                 last_pitch := pitch_of_pinch (pinch h)\<rparr>))
      else s)"
    by (rule ext) (simp add: pitch_control_eq)
  ultimately show ?thesis
    by simp
qed

lemma respects_gate_two_hand_controls: "respects_gate w (two_hand_controls w h0 h1)"
proof -
  have "respects_gate w (\<lambda>s. frequency_control w h1 (speed_control w h0
       (mixer (SetVolume (clip (calculate_distance (h0 WRIST) (h1 WRIST)) 0 1)) s)))"
    by (intro respects_gate_comp [OF _ respects_gate_frequency_control]
        respects_gate_comp [OF _ respects_gate_speed_control] respects_gate_mixer)
  moreover have "two_hand_controls w h0 h1 = (\<lambda>s. frequency_control w h1 (speed_control w h0
       (mixer (SetVolume (clip (calculate_distance (h0 WRIST) (h1 WRIST)) 0 1)) s)))"
    by (rule ext) (simp add: two_hand_controls_eq)
  ultimately show ?thesis
    by simp
qed

lemma respects_gate_handle_gestures: "respects_gate w (handle_gestures w h hs)"
proof -
  have "respects_gate w (\<lambda>s. pitch_control w h
      (if length hs = 2 then two_hand_controls w (hs ! 0) (hs ! 1) s else s))"
    by (intro respects_gate_comp [OF _ respects_gate_pitch_control] respects_gate_if
        respects_gate_two_hand_controls respects_gate_id)
  moreover have "handle_gestures w h hs = (\<lambda>s. pitch_control w h
      (if length hs = 2 then two_hand_controls w (hs ! 0) (hs ! 1) s else s))"
    by (rule ext) (simp add: handle_gestures_def)
  ultimately show ?thesis
    by simp
qed

lemma respects_gate_foldl:
  assumes "\<And>x. respects_gate w (f x)"
  shows "respects_gate w (\<lambda>s. foldl (\<lambda>s x. f x s) s xs)"
proof (induction xs)
  case Nil
  show ?case
    by (simp add: respects_gate_id)
next
  case (Cons x xs)
  have "respects_gate w (\<lambda>s. (\<lambda>s. foldl (\<lambda>s x. f x s) s xs) (f x s))"
    by (rule respects_gate_comp [OF assms Cons.IH])
  then show ?case
    by simp
qed

lemma respects_gate_process_frame: "respects_gate w (process_frame w hs)"
proof -
  have "respects_gate w (\<lambda>s. if hs \<noteq> []
      then (\<lambda>s. foldl (\<lambda>s h. handle_gestures w h hs s) s hs) (s\<lparr>hand_count := Some (length hs)\<rparr>)
      else s)"
    by (intro respects_gate_if respects_gate_id
        respects_gate_comp [OF _ respects_gate_foldl] respects_gate_handle_gestures
        respects_gate_silent) simp_all
  moreover have "process_frame w hs = (\<lambda>s. if hs \<noteq> []
      then (\<lambda>s. foldl (\<lambda>s h. handle_gestures w h hs s) s hs) (s\<lparr>hand_count := Some (length hs)\<rparr>)
      else s)"
    by (rule ext) (simp add: process_frame_def)
  ultimately show ?thesis
    by simp
qed

lemma respects_gate_process_frames: "respects_gate w (process_frames w frames)"
proof -
  have "respects_gate w (\<lambda>s. foldl (\<lambda>s hs. process_frame w hs s) s frames)"
    by (rule respects_gate_foldl) (rule respects_gate_process_frame)
  moreover have "process_frames w frames = (\<lambda>s. foldl (\<lambda>s hs. process_frame w hs s) s frames)"
    by (rule ext) (simp add: process_frames_def)
  ultimately show ?thesis
    by simp
qed

lemma process_frames_two: "process_frames w [f1, f2] s = process_frame w f2 (process_frame w f1 s)"
  by (simp add: process_frames_def)

lemma pitch_frame:
  "current_pitch (process_frame w [h] x)
     = (if pitch_threshold x < \<bar>pitch_of_pinch (pinch h) - last_pitch x\<bar>
        then pitch_of_pinch (pinch h) else current_pitch x)"
  "last_pitch (process_frame w [h] x)
     = (if pitch_threshold x < \<bar>pitch_of_pinch (pinch h) - last_pitch x\<bar>
        then pitch_of_pinch (pinch h) else last_pitch x)"
  "adjust_calls (process_frame w [h] x)
     = adjust_calls x + (if pitch_threshold x < \<bar>pitch_of_pinch (pinch h) - last_pitch x\<bar> then 1 else 0)"
  "pitch_threshold (process_frame w [h] x) = pitch_threshold x"
  by (simp_all add: process_frame_one pitch_control_eq print_def)

lemma speed_frame:
  "current_speed (process_frame w [h0, h1] x)
     = (if speed_threshold x < \<bar>speed_of_pinch (pinch h0) - last_speed x\<bar>
        then speed_of_pinch (pinch h0) else current_speed x)"
  "last_speed (process_frame w [h0, h1] x)
     = (if speed_threshold x < \<bar>speed_of_pinch (pinch h0) - last_speed x\<bar>
        then speed_of_pinch (pinch h0) else last_speed x)"
  "speed_threshold (process_frame w [h0, h1] x) = speed_threshold x"
  by (auto simp add: process_frame_two handle_gestures_two speed_control_eq)

lemma speed_frame_calls:
  assumes "speed_threshold x < \<bar>speed_of_pinch (pinch h0) - last_speed x\<bar>"
  shows "adjust_calls x < adjust_calls (process_frame w [h0, h1] x)"
proof -
  define vol where "vol = SetVolume (clip (calculate_distance (h0 WRIST) (h1 WRIST)) 0 1)"
  define y where "y = speed_control w h0 (mixer vol (x\<lparr>hand_count := Some 2\<rparr>))"
  have "respects_gate w (\<lambda>y. handle_gestures w h1 [h0, h1]
      (pitch_control w h0 (frequency_control w h1 y)))"
    by (intro respects_gate_comp [OF _ respects_gate_handle_gestures]
        respects_gate_comp [OF _ respects_gate_pitch_control] respects_gate_frequency_control)
  then have "adjust_calls y
      \<le> adjust_calls (handle_gestures w h1 [h0, h1] (pitch_control w h0 (frequency_control w h1 y)))"
    by (rule respects_gate_calls)
  moreover have "process_frame w [h0, h1] x
      = handle_gestures w h1 [h0, h1] (pitch_control w h0 (frequency_control w h1 y))"
    by (simp add: process_frame_two handle_gestures_two y_def vol_def)
  moreover have "adjust_calls y = adjust_calls x + 1"
    using assms by (simp add: y_def speed_control_eq)
  ultimately show ?thesis
    by simp
qed

text \<open>
  C2, as the code has it. For any run of frames in which the first accepted candidate
  arrives at least the update interval after the last render was started and every later
  accepted candidate arrives less than the update interval after the first (two candidates
  50 ms apart with an interval of 200 ms, say), exactly one render thread is started, given
  that the thread can be started, and it is the earlier candidate that starts it: the time
  of the last start is the time the first candidate read. This is stated for every run of
  frames (each accepted candidate is one entry of \<^verbatim>\<open>adjust_audio\<close>), then for two pitch
  candidates of single-hand frames and for two speed candidates of two-hand frames, where
  the later candidate is stored as the current value. Every check that accepts its
  candidate stores it and enters \<^verbatim>\<open>adjust_audio\<close> once. \<^verbatim>\<open>adjust_audio\<close> starts a thread only if
  the time since the last start is at least the update interval, and otherwise changes
  nothing but its call count, so the value stored by the check stays. The pass that was
  started does nothing while playback is paused; otherwise it reads the speed when it
  begins and the pitch when the time-stretch has returned, so it uses the later candidate's
  value only where it reads after the later candidate has arrived, and the earlier
  candidate's value otherwise.
\<close>

theorem render_time_gate:
  "(update_interval s \<le> time_time w (adjust_calls s) - last_update_time s
      \<and> thread_start_ok w (adjust_calls s)
      \<and> (\<forall>j. adjust_calls s < j \<and> j < adjust_calls (process_frames w frames s)
            \<longrightarrow> time_time w j - time_time w (adjust_calls s) < update_interval s)
    \<longrightarrow> threads_started (process_frames w frames s)
          = threads_started s + (if adjust_calls (process_frames w frames s) = adjust_calls s then 0 else 1)
      \<and> last_update_time (process_frames w frames s)
          = (if adjust_calls (process_frames w frames s) = adjust_calls s then last_update_time s
             else time_time w (adjust_calls s)))
   \<and> (update_interval s \<le> time_time w (adjust_calls s) - last_update_time s
      \<and> thread_start_ok w (adjust_calls s)
      \<and> time_time w (adjust_calls s + 1) - time_time w (adjust_calls s) < update_interval s
      \<and> pitch_threshold s < \<bar>pitch_of_pinch (pinch hA) - last_pitch s\<bar>
      \<and> pitch_threshold s < \<bar>pitch_of_pinch (pinch hB) - pitch_of_pinch (pinch hA)\<bar>
    \<longrightarrow> threads_started (process_frame w [hA] s) = threads_started s + 1
      \<and> threads_started (process_frames w [[hA], [hB]] s) = threads_started s + 1
      \<and> last_update_time (process_frames w [[hA], [hB]] s) = time_time w (adjust_calls s)
      \<and> current_pitch (process_frames w [[hA], [hB]] s) = pitch_of_pinch (pinch hB))
   \<and> (update_interval s \<le> time_time w (adjust_calls s) - last_update_time s
      \<and> thread_start_ok w (adjust_calls s)
      \<and> (\<forall>j. adjust_calls s < j \<and> j < adjust_calls (process_frames w [[hA, hA'], [hB, hB']] s)
            \<longrightarrow> time_time w j - time_time w (adjust_calls s) < update_interval s)
      \<and> speed_threshold s < \<bar>speed_of_pinch (pinch hA) - last_speed s\<bar>
      \<and> speed_threshold s < \<bar>speed_of_pinch (pinch hB) - speed_of_pinch (pinch hA)\<bar>
    \<longrightarrow> threads_started (process_frame w [hA, hA'] s) = threads_started s + 1
      \<and> threads_started (process_frames w [[hA, hA'], [hB, hB']] s) = threads_started s + 1
      \<and> last_update_time (process_frames w [[hA, hA'], [hB, hB']] s) = time_time w (adjust_calls s)
      \<and> current_speed (process_frames w [[hA, hA'], [hB, hB']] s) = speed_of_pinch (pinch hB))
   \<and> (speed_threshold t < \<bar>speed_of_pinch (pinch h) - last_speed t\<bar>
        \<longrightarrow> current_speed (speed_control w h t) = speed_of_pinch (pinch h)
          \<and> adjust_calls (speed_control w h t) = adjust_calls t + 1)
   \<and> (pitch_threshold t < \<bar>pitch_of_pinch (pinch h) - current_pitch t\<bar>
        \<longrightarrow> current_pitch (frequency_control w h t) = pitch_of_pinch (pinch h)
          \<and> adjust_calls (frequency_control w h t) = adjust_calls t + 1)
   \<and> (pitch_threshold t < \<bar>pitch_of_pinch (pinch h) - last_pitch t\<bar>
        \<longrightarrow> current_pitch (pitch_control w h t) = pitch_of_pinch (pinch h)
          \<and> adjust_calls (pitch_control w h t) = adjust_calls t + 1)
   \<and> (time_time w (adjust_calls t) - last_update_time t < update_interval t
        \<longrightarrow> adjust_audio w t = t\<lparr>adjust_calls := adjust_calls t + 1\<rparr>)
   \<and> (threads_started (adjust_audio w t) \<noteq> threads_started t
        \<longrightarrow> update_interval t \<le> time_time w (adjust_calls t) - last_update_time t)
   \<and> (\<not> paused t
        \<longrightarrow> mixer_audio (snd (process_audio_during None meanwhile t))
            = Some (Rendered (current_speed t) (py_round (current_pitch (meanwhile t)))))"
proof -
  define n where "n = adjust_calls s"
  have run: "threads_started (process_frames w fs s)
          = threads_started s + (if adjust_calls (process_frames w fs s) = n then 0 else 1)
      \<and> last_update_time (process_frames w fs s)
          = (if adjust_calls (process_frames w fs s) = n then last_update_time s
             else time_time w n)"
    if "update_interval s \<le> time_time w n - last_update_time s" and "thread_start_ok w n"
      and "\<forall>j. n < j \<and> j < adjust_calls (process_frames w fs s)
            \<longrightarrow> time_time w j - time_time w n < update_interval s"
    for fs
    using respects_gate_open [OF respects_gate_process_frames, of s w fs] that
    unfolding n_def by blast
  have first: "threads_started (process_frame w hs s) = threads_started s + 1"
    if "update_interval s \<le> time_time w n - last_update_time s" and "thread_start_ok w n"
      and "\<forall>j. n < j \<and> j < adjust_calls (process_frame w hs s)
            \<longrightarrow> time_time w j - time_time w n < update_interval s"
      and "n < adjust_calls (process_frame w hs s)"
    for hs
    using respects_gate_open [OF respects_gate_process_frame, of s w hs] that
    unfolding n_def by simp
  have pitch_pair: "threads_started (process_frame w [hA] s) = threads_started s + 1
      \<and> threads_started (process_frames w [[hA], [hB]] s) = threads_started s + 1
      \<and> last_update_time (process_frames w [[hA], [hB]] s) = time_time w n
      \<and> current_pitch (process_frames w [[hA], [hB]] s) = pitch_of_pinch (pinch hB)"
    if op: "update_interval s \<le> time_time w n - last_update_time s" and ok: "thread_start_ok w n"
      and g2: "time_time w (n + 1) - time_time w n < update_interval s"
      and a1: "pitch_threshold s < \<bar>pitch_of_pinch (pinch hA) - last_pitch s\<bar>"
      and a2: "pitch_threshold s < \<bar>pitch_of_pinch (pinch hB) - pitch_of_pinch (pinch hA)\<bar>"
  proof -
    have c1: "adjust_calls (process_frame w [hA] s) = n + 1"
      using a1 by (simp add: pitch_frame n_def)
    have c2: "adjust_calls (process_frames w [[hA], [hB]] s) = n + 2"
      using a1 a2 by (simp add: process_frames_two pitch_frame n_def)
    have "threads_started (process_frame w [hA] s) = threads_started s + 1"
      using op ok c1 by (intro first) simp_all
    moreover have "\<forall>j. n < j \<and> j < adjust_calls (process_frames w [[hA], [hB]] s)
            \<longrightarrow> time_time w j - time_time w n < update_interval s"
    proof (intro allI impI)
      fix j
      assume "n < j \<and> j < adjust_calls (process_frames w [[hA], [hB]] s)"
      then have "j = n + 1"
        using c2 by simp
      then show "time_time w j - time_time w n < update_interval s"
        using g2 by simp
    qed
    then have "threads_started (process_frames w [[hA], [hB]] s) = threads_started s + 1
        \<and> last_update_time (process_frames w [[hA], [hB]] s) = time_time w n"
      using run [OF op ok, of "[[hA], [hB]]"] c2 by simp
    moreover have "current_pitch (process_frames w [[hA], [hB]] s) = pitch_of_pinch (pinch hB)"
      using a1 a2 by (simp add: process_frames_two pitch_frame)
    ultimately show ?thesis
      by simp
  qed
  have speed_pair: "threads_started (process_frame w [hA, hA'] s) = threads_started s + 1
      \<and> threads_started (process_frames w [[hA, hA'], [hB, hB']] s) = threads_started s + 1
      \<and> last_update_time (process_frames w [[hA, hA'], [hB, hB']] s) = time_time w n
      \<and> current_speed (process_frames w [[hA, hA'], [hB, hB']] s) = speed_of_pinch (pinch hB)"
    if op: "update_interval s \<le> time_time w n - last_update_time s" and ok: "thread_start_ok w n"
      and Q: "\<forall>j. n < j \<and> j < adjust_calls (process_frames w [[hA, hA'], [hB, hB']] s)
            \<longrightarrow> time_time w j - time_time w n < update_interval s"
      and b1: "speed_threshold s < \<bar>speed_of_pinch (pinch hA) - last_speed s\<bar>"
      and b2: "speed_threshold s < \<bar>speed_of_pinch (pinch hB) - speed_of_pinch (pinch hA)\<bar>"
  proof -
    have c1: "n < adjust_calls (process_frame w [hA, hA'] s)"
      using speed_frame_calls [OF b1] by (simp add: n_def)
    have c2: "adjust_calls (process_frame w [hA, hA'] s)
        \<le> adjust_calls (process_frames w [[hA, hA'], [hB, hB']] s)"
      using respects_gate_calls [OF respects_gate_process_frame]
      by (simp add: process_frames_two)
    have "\<forall>j. n < j \<and> j < adjust_calls (process_frame w [hA, hA'] s)
            \<longrightarrow> time_time w j - time_time w n < update_interval s"
      using Q c2 by simp
    then have "threads_started (process_frame w [hA, hA'] s) = threads_started s + 1"
      using op ok c1 by (intro first) simp_all
    moreover have "threads_started (process_frames w [[hA, hA'], [hB, hB']] s) = threads_started s + 1
        \<and> last_update_time (process_frames w [[hA, hA'], [hB, hB']] s) = time_time w n"
      using run [OF op ok Q] c1 c2 by simp
    moreover have "current_speed (process_frames w [[hA, hA'], [hB, hB']] s) = speed_of_pinch (pinch hB)"
      using b1 b2 by (simp add: process_frames_two speed_frame)
    ultimately show ?thesis
      by simp
  qed
  have checks: "speed_threshold t < \<bar>speed_of_pinch (pinch h) - last_speed t\<bar>
        \<longrightarrow> current_speed (speed_control w h t) = speed_of_pinch (pinch h)
          \<and> adjust_calls (speed_control w h t) = adjust_calls t + 1"
    "pitch_threshold t < \<bar>pitch_of_pinch (pinch h) - current_pitch t\<bar>
        \<longrightarrow> current_pitch (frequency_control w h t) = pitch_of_pinch (pinch h)
          \<and> adjust_calls (frequency_control w h t) = adjust_calls t + 1"
    "pitch_threshold t < \<bar>pitch_of_pinch (pinch h) - last_pitch t\<bar>
        \<longrightarrow> current_pitch (pitch_control w h t) = pitch_of_pinch (pinch h)
          \<and> adjust_calls (pitch_control w h t) = adjust_calls t + 1"
    by (simp_all add: speed_control_eq frequency_control_eq pitch_control_eq print_def)
  have gen1: "time_time w (adjust_calls t) - last_update_time t < update_interval t
      \<longrightarrow> adjust_audio w t = t\<lparr>adjust_calls := adjust_calls t + 1\<rparr>"
    by (simp add: adjust_audio_eq)
  have gen2: "threads_started (adjust_audio w t) \<noteq> threads_started t
      \<longrightarrow> update_interval t \<le> time_time w (adjust_calls t) - last_update_time t"
    by (simp add: adjust_audio_eq)
  have pass: "\<not> paused t
        \<longrightarrow> mixer_audio (snd (process_audio_during None meanwhile t))
            = Some (Rendered (current_speed t) (py_round (current_pitch (meanwhile t))))"
    by (simp add: process_audio_during_plays)
  from run [of frames] pitch_pair speed_pair checks gen1 gen2 pass show ?thesis
    unfolding n_def by blast
qed

theorem render_time_gate_witness:
  "update_interval init \<le> time_time (steady_clock 1000 0.05) (adjust_calls init) - last_update_time init
   \<and> time_time (steady_clock 1000 0.05) (adjust_calls init + 1)
       - time_time (steady_clock 1000 0.05) (adjust_calls init) < update_interval init
   \<and> pitch_threshold init < \<bar>pitch_of_pinch (pinch (hand_with 0 0.3)) - last_pitch init\<bar>
   \<and> pitch_threshold init
       < \<bar>pitch_of_pinch (pinch (hand_with 0 0.4)) - pitch_of_pinch (pinch (hand_with 0 0.3))\<bar>
   \<and> threads_started (process_frames (steady_clock 1000 0.05) [[hand_with 0 0.3], [hand_with 0 0.4]] init)
       = threads_started init + 1
   \<and> last_update_time (process_frames (steady_clock 1000 0.05) [[hand_with 0 0.3], [hand_with 0 0.4]] init)
       = time_time (steady_clock 1000 0.05) (adjust_calls init)
   \<and> current_pitch (process_frames (steady_clock 1000 0.05) [[hand_with 0 0.3], [hand_with 0 0.4]] init)
       = pitch_of_pinch (pinch (hand_with 0 0.4))
   \<and> speed_threshold init < \<bar>speed_of_pinch (pinch (hand_with 0 0.3)) - last_speed init\<bar>
   \<and> speed_threshold init
       < \<bar>speed_of_pinch (pinch (hand_with 0 0.4)) - speed_of_pinch (pinch (hand_with 0 0.3))\<bar>
   \<and> threads_started (process_frames (steady_clock 1000 0)
         [[hand_with 0 0.3, hand_with 0.5 0.3], [hand_with 0 0.4, hand_with 0.5 0.3]] init)
       = threads_started init + 1
   \<and> current_speed (process_frames (steady_clock 1000 0)
         [[hand_with 0 0.3, hand_with 0.5 0.3], [hand_with 0 0.4, hand_with 0.5 0.3]] init)
       = speed_of_pinch (pinch (hand_with 0 0.4))
   \<and> mixer_audio (snd (process_audio_during None (\<lambda>s. s)
         (process_frame (steady_clock 1000 0.05) [hand_with 0 0.3] init)))
       = Some (Rendered 1 (-2))
   \<and> mixer_audio (snd (process_audio_during None (process_frame (steady_clock 1000 0.05) [hand_with 0 0.4])
         (process_frame (steady_clock 1000 0.05) [hand_with 0 0.3] init)))
       = Some (Rendered 1 2)"
proof -
  define W where "W = steady_clock 1000 0.05"
  define W0 where "W0 = steady_clock 1000 0"
  define A where "A = hand_with 0 0.3"
  define B where "B = hand_with 0 0.4"
  define C where "C = hand_with 0.5 0.3"
  define s1 where "s1 = process_frame W [A] init"
  have cA: "pitch_of_pinch (pinch A) = -2.4" and cB: "pitch_of_pinch (pinch B) = 2.4"
    by (simp_all add: A_def B_def pinch_hand_with pitch_of_pinch_def clip_def)
  have dA: "speed_of_pinch (pinch A) = 1.4" and dB: "speed_of_pinch (pinch B) = 1.6"
    by (simp_all add: A_def B_def pinch_hand_with speed_of_pinch_def clip_def)
  have a1: "pitch_threshold init < \<bar>pitch_of_pinch (pinch A) - last_pitch init\<bar>"
    by (simp add: cA init_def)
  have a2: "pitch_threshold init < \<bar>pitch_of_pinch (pinch B) - pitch_of_pinch (pinch A)\<bar>"
    by (simp add: cA cB init_def)
  have b1: "speed_threshold init < \<bar>speed_of_pinch (pinch A) - last_speed init\<bar>"
    by (simp add: dA init_def)
  have b2: "speed_threshold init < \<bar>speed_of_pinch (pinch B) - speed_of_pinch (pinch A)\<bar>"
    by (simp add: dA dB init_def)
  have g1: "update_interval init \<le> time_time W (adjust_calls init) - last_update_time init"
    by (simp add: W_def init_def steady_clock_def)
  have g2: "time_time W (adjust_calls init + 1) - time_time W (adjust_calls init) < update_interval init"
    by (simp add: W_def init_def steady_clock_def)
  have ok: "thread_start_ok W (adjust_calls init)"
    by (simp add: W_def steady_clock_def)
  have g0: "update_interval init \<le> time_time W0 (adjust_calls init) - last_update_time init"
    by (simp add: W0_def init_def steady_clock_def)
  have ok0: "thread_start_ok W0 (adjust_calls init)"
    by (simp add: W0_def steady_clock_def)
  have q0: "\<forall>j. adjust_calls init < j \<and> j < adjust_calls (process_frames W0 [[A, C], [B, C]] init)
      \<longrightarrow> time_time W0 j - time_time W0 (adjust_calls init) < update_interval init"
    by (simp add: W0_def init_def steady_clock_def)
  have cs: "current_speed s1 = 1" "\<not> paused s1"
    by (simp_all add: s1_def process_frame_one init_def)
  have p1: "current_pitch s1 = pitch_of_pinch (pinch A)"
    using a1 by (simp add: s1_def pitch_frame)
  have p2: "current_pitch (process_frame W [B] s1) = pitch_of_pinch (pinch B)"
    using a1 a2 by (simp add: s1_def pitch_frame)
  have r: "py_round (-2.4) = -2" "py_round 2.4 = 2"
    by (simp_all add: py_round_def Let_def)
  have r1: "mixer_audio (snd (process_audio_during None (\<lambda>s. s) s1)) = Some (Rendered 1 (-2))"
    using render_time_gate [where t = s1 and meanwhile = "\<lambda>s. s"] cs p1 cA r by simp
  have r2: "mixer_audio (snd (process_audio_during None (process_frame W [B]) s1)) = Some (Rendered 1 2)"
    using render_time_gate [where t = s1 and meanwhile = "process_frame W [B]"] cs p2 cB r by simp
  have pp: "threads_started (process_frames W [[A], [B]] init) = threads_started init + 1
      \<and> last_update_time (process_frames W [[A], [B]] init) = time_time W (adjust_calls init)
      \<and> current_pitch (process_frames W [[A], [B]] init) = pitch_of_pinch (pinch B)"
    using render_time_gate [where s = init and w = W and hA = A and hB = B] g1 g2 ok a1 a2 by blast
  have ss: "threads_started (process_frames W0 [[A, C], [B, C]] init) = threads_started init + 1
      \<and> current_speed (process_frames W0 [[A, C], [B, C]] init) = speed_of_pinch (pinch B)"
    using render_time_gate [where s = init and w = W0 and hA = A and hB = B and hA' = C and hB' = C]
      g0 ok0 q0 b1 b2 by blast
  from g1 g2 a1 a2 pp b1 b2 ss r1 r2 show ?thesis
    unfolding s1_def W_def W0_def A_def B_def C_def by blast
qed

text \<open>
  C2 as stated fails: two pitch candidates, -2.4 and then 2.4, both pass the value
  threshold and arrive 50 ms apart with an update interval of 200 ms, the first long after
  the last render. One render thread is started, by the first candidate; when its pass runs
  before the second candidate arrives, the mixer plays audio shifted by -2 semitones, made
  from the earlier value, and it still does after the later candidate set the pitch to 2.4.
\<close>

theorem later_candidate_not_rendered:
  "pitch_threshold init < \<bar>pitch_of_pinch (pinch (hand_with 0 0.3)) - last_pitch init\<bar>
   \<and> pitch_threshold init
       < \<bar>pitch_of_pinch (pinch (hand_with 0 0.4)) - pitch_of_pinch (pinch (hand_with 0 0.3))\<bar>
   \<and> update_interval init = 0.2
   \<and> update_interval init \<le> time_time (steady_clock 1000 0.05) 0 - last_update_time init
   \<and> time_time (steady_clock 1000 0.05) 1 - time_time (steady_clock 1000 0.05) 0 = 0.05
   \<and> threads_started (process_frame (steady_clock 1000 0.05) [hand_with 0 0.3] init) = 1
   \<and> threads_started (process_frame (steady_clock 1000 0.05) [hand_with 0 0.4]
        (snd (process_audio None (process_frame (steady_clock 1000 0.05) [hand_with 0 0.3] init)))) = 1
   \<and> current_pitch (process_frame (steady_clock 1000 0.05) [hand_with 0 0.4]
        (snd (process_audio None (process_frame (steady_clock 1000 0.05) [hand_with 0 0.3] init)))) = 2.4
   \<and> mixer_audio (process_frame (steady_clock 1000 0.05) [hand_with 0 0.4]
        (snd (process_audio None (process_frame (steady_clock 1000 0.05) [hand_with 0 0.3] init))))
       = Some (Rendered 1 (-2))
   \<and> Some (Rendered 1 (-2)) \<noteq> Some (Rendered 1 (py_round 2.4))"
proof -
  define W where "W = steady_clock 1000 0.05"
  define A where "A = hand_with 0 0.3"
  define B where "B = hand_with 0 0.4"
  define s1 where "s1 = process_frame W [A] init"
  define s2 where "s2 = snd (process_audio None s1)"
  define s3 where "s3 = process_frame W [B] s2"
  have cA: "pitch_of_pinch (pinch A) = -2.4" and cB: "pitch_of_pinch (pinch B) = 2.4"
    by (simp_all add: A_def B_def pinch_hand_with pitch_of_pinch_def clip_def)
  have a1: "pitch_threshold init < \<bar>pitch_of_pinch (pinch A) - last_pitch init\<bar>"
    by (simp add: cA init_def)
  have a2: "pitch_threshold init < \<bar>pitch_of_pinch (pinch B) - pitch_of_pinch (pinch A)\<bar>"
    by (simp add: cA cB init_def)
  have g: "update_interval init = 0.2" "update_interval init \<le> time_time W 0 - last_update_time init"
    "time_time W 1 - time_time W 0 = 0.05"
    by (simp_all add: W_def init_def steady_clock_def)
  have f1: "threads_started s1 = 1" "last_pitch s1 = -2.4" "current_pitch s1 = -2.4"
    "current_speed s1 = 1" "pitch_threshold s1 = 0.5" "update_interval s1 = 0.2"
    "adjust_calls s1 = 1" "last_update_time s1 = 1000" "\<not> paused s1"
    by (simp_all add: s1_def process_frame_one pitch_control_eq cA adjust_audio_eq print_def
        W_def init_def steady_clock_def)
  have r: "py_round (-2.4) = -2" "py_round 2.4 = 2"
    by (simp_all add: py_round_def Let_def)
  have f2: "mixer_audio s2 = Some (Rendered 1 (-2))"
    using r by (simp add: s2_def process_audio_plays f1)
  have f2': "threads_started s2 = 1" "last_pitch s2 = -2.4" "pitch_threshold s2 = 0.5"
    "update_interval s2 = 0.2" "adjust_calls s2 = 1" "last_update_time s2 = 1000"
    by (simp_all add: s2_def f1)
  have f3: "threads_started s3 = 1" "current_pitch s3 = 2.4"
    by (simp_all add: s3_def process_frame_one pitch_control_eq cB adjust_audio_eq print_def
        W_def steady_clock_def f2')
  have m3: "mixer_audio s3 = Some (Rendered 1 (-2))"
    by (simp add: s3_def process_frame_one f2)
  have ne: "Some (Rendered 1 (-2)) \<noteq> Some (Rendered 1 (py_round 2.4))"
    using r by simp
  from a1 a2 g f1(1) f3 m3 ne show ?thesis
    unfolding s3_def s2_def s1_def W_def A_def B_def by blast
qed

subsection \<open>The pitch check of the two-hand branch\<close>

text \<open>
  C1 at a concrete frame: a fresh controller receives two hands, hand 0 with a pinch of
  0.35 and hand 1 with a pinch of 0.3. In the call of \<^verbatim>\<open>handle_gestures\<close> for hand 0 the
  two-hand branch accepts the pitch candidate -2.4 of hand 1 (the current pitch changes and
  \<^verbatim>\<open>adjust_audio\<close> is entered) and leaves \<^verbatim>\<open>last_pitch\<close> at 0, where the speed check and the
  single-hand pitch check store the accepted value. Later in the same frame the single-hand
  check of hand 1 accepts -2.4 again, although the current pitch already is -2.4.
\<close>

theorem two_hand_pitch_acceptance_skips_last_pitch:
  "pitch_of_pinch (pinch (hand_with 0.5 0.3)) = -2.4
   \<and> current_pitch init = 0 \<and> last_pitch init = 0
   \<and> current_pitch (handle_gestures (steady_clock 1000 0.05) (hand_with 0 0.35)
        [hand_with 0 0.35, hand_with 0.5 0.3] init) = -2.4
   \<and> last_pitch (handle_gestures (steady_clock 1000 0.05) (hand_with 0 0.35)
        [hand_with 0 0.35, hand_with 0.5 0.3] init) = 0
   \<and> adjust_calls (handle_gestures (steady_clock 1000 0.05) (hand_with 0 0.35)
        [hand_with 0 0.35, hand_with 0.5 0.3] init) = 2
   \<and> printed (process_frame (steady_clock 1000 0.05)
        [hand_with 0 0.35, hand_with 0.5 0.3] init) = [PitchUpdated (-2.4)]
   \<and> adjust_calls (process_frame (steady_clock 1000 0.05)
        [hand_with 0 0.35, hand_with 0.5 0.3] init) = 3"
proof -
  define W where "W = steady_clock 1000 0.05"
  define A where "A = hand_with 0 0.35"
  define B where "B = hand_with 0.5 0.3"
  define s1 where "s1 = handle_gestures W A [A, B] init"
  have c: "pitch_of_pinch (pinch B) = -2.4" "pitch_of_pinch (pinch A) = 0"
    "speed_of_pinch (pinch A) = 1.5" "speed_of_pinch (pinch B) = 1.4"
    by (simp_all add: A_def B_def pinch_hand_with pitch_of_pinch_def speed_of_pinch_def clip_def)
  have i: "current_pitch init = 0" "last_pitch init = 0"
    by (simp_all add: init_def)
  have f1: "current_pitch s1 = -2.4" "last_pitch s1 = 0" "adjust_calls s1 = 2"
    "last_speed s1 = 1.5" "speed_threshold s1 = 0.05" "pitch_threshold s1 = 0.5"
    "printed s1 = []" "update_interval s1 = 0.2" "last_update_time s1 = 1000"
    by (simp_all add: s1_def handle_gestures_two speed_control_eq frequency_control_eq
        pitch_control_eq c adjust_audio_eq mixer_def print_def W_def init_def steady_clock_def)
  have "handle_gestures W A [A, B] (init\<lparr>hand_count := Some 2\<rparr>) = s1\<lparr>hand_count := Some 2\<rparr>"
    by (simp add: s1_def handle_gestures_two speed_control_eq frequency_control_eq
        pitch_control_eq c adjust_audio_eq mixer_def print_def W_def init_def steady_clock_def)
  moreover have "printed (handle_gestures W B [A, B] (s1\<lparr>hand_count := Some 2\<rparr>)) = [PitchUpdated (-2.4)]"
    "adjust_calls (handle_gestures W B [A, B] (s1\<lparr>hand_count := Some 2\<rparr>)) = 3"
    using f1
    by (simp_all add: handle_gestures_two speed_control_eq frequency_control_eq
        pitch_control_eq c adjust_audio_eq mixer_def print_def W_def steady_clock_def)
  ultimately have f3: "printed (process_frame W [A, B] init) = [PitchUpdated (-2.4)]"
    "adjust_calls (process_frame W [A, B] init) = 3"
    by (simp_all add: process_frame_two)
  from c(1) i f1(1-3) f3 show ?thesis
    unfolding s1_def W_def A_def B_def by blast
qed

end
